theory Spec2Isabelle
  imports Complex_Main
begin

section \<open>Data model\<close>

text \<open>
  The module \<^verbatim>\<open>pecos/monitoring.py\<close> keeps a table of measurements indexed by time, a
  translation dictionary, a time filter and the list of recorded test results in one
  \<^verbatim>\<open>PerformanceMonitoring\<close> object. Timestamps are nanosecond counts. A cell of the
  table is a finite number or absent (NaN); comparisons of finite doubles are exact, so
  a present cell is modelled by the real number it denotes. A table is stored by
  columns: \<open>cells f ! c ! r\<close> is the cell of column \<open>c\<close> in row \<open>r\<close>.
\<close>

type_synonym timestamp = int

type_synonym cell = "real option"

record 'a frame =
  index :: "timestamp list"
  columns :: "string list"
  cells :: "'a list list"

definition wf_frame :: "'a frame \<Rightarrow> bool" where
  "wf_frame f \<longleftrightarrow> length (cells f) = length (columns f) \<and>
     (\<forall>col\<in>set (cells f). length col = length (index f))"

text \<open>\<^verbatim>\<open>DataFrame.empty\<close>: one of the two axes has length 0.\<close>

definition empty_frame :: "'a frame \<Rightarrow> bool" where
  "empty_frame f \<longleftrightarrow> index f = [] \<or> columns f = []"

text \<open>One row of \<^verbatim>\<open>test_results\<close>.\<close>

record test_result =
  Variable_Name :: string
  Start_Time :: timestamp
  End_Time :: timestamp
  Timesteps :: int
  Error_Flag :: string

datatype log_entry = Info string | Warning string

text \<open>
  The state of a \<^verbatim>\<open>PerformanceMonitoring\<close> object. The time filter is a Series: its
  labels paired with its values; the empty list is the empty Series of \<^verbatim>\<open>__init__\<close>.
  The messages handed to the module's logger are collected in \<open>logged\<close>. The
  dictionary \<^verbatim>\<open>trans\<close> is the field \<open>trans_dict\<close>.
\<close>

record pm =
  df :: "cell frame"
  trans_dict :: "string \<rightharpoonup> string list"
  tfilter :: "(timestamp \<times> bool) list"
  test_results :: "test_result list"
  logged :: "log_entry list"

datatype error = IndexError | KeyError | TypeError | ValueError | IndexingError | ZeroDivisionError

text \<open>
  A call either returns or raises. In both cases the object (and a list argument the
  call mutates) is left in some state, which the outcome carries.
\<close>

datatype 's outcome = Returned 's | Raised error 's

fun final :: "'s outcome \<Rightarrow> 's" where
  "final (Returned s) = s"
| "final (Raised e s) = s"

fun returned :: "'s outcome \<Rightarrow> bool" where
  "returned (Returned s) = True"
| "returned (Raised e s) = False"

section \<open>Block extraction\<close>

text \<open>
  \<^verbatim>\<open>np_mask = mask.T.values\<close> has one row per column of the mask, which is how \<open>cells\<close>
  stores it. \<^verbatim>\<open>np_mask[:,0]\<close> needs a first element in every row.
  \<^verbatim>\<open>start_nans_mask\<close> puts the first element beside
  \<^verbatim>\<open>logical_and(logical_not(np_mask[:,:-1]), np_mask[:,1:])\<close>, and \<^verbatim>\<open>stop_nans_mask\<close> puts
  \<^verbatim>\<open>logical_and(np_mask[:,:-1], logical_not(np_mask[:,1:]))\<close> beside the last element.
\<close>

definition start_nans_row :: "bool list \<Rightarrow> bool list" where
  "start_nans_row row = hd row # map2 (\<lambda>a b. \<not> a \<and> b) (butlast row) (tl row)"

definition stop_nans_row :: "bool list \<Rightarrow> bool list" where
  "stop_nans_row row = map2 (\<lambda>a b. a \<and> \<not> b) (butlast row) (tl row) @ [last row]"

text \<open>\<^verbatim>\<open>np.where\<close> on one row, and on a matrix in row-major order as (row, column) pairs.\<close>

definition where1 :: "bool list \<Rightarrow> nat list" where
  "where1 bs = filter (\<lambda>i. bs ! i) [0..<length bs]"

definition np_where :: "bool list list \<Rightarrow> (nat \<times> nat) list" where
  "np_where m = concat (map (\<lambda>r. map (Pair r) (where1 (m ! r))) [0..<length m])"

text \<open>
  The dictionary \<^verbatim>\<open>block\<close>. With \<^verbatim>\<open>order == 'col'\<close> the two index arrays of \<^verbatim>\<open>np.where\<close>
  are swapped: the position inside a row of \<^verbatim>\<open>np_mask\<close> is the row (time) index of the
  mask and the row of \<^verbatim>\<open>np_mask\<close> is its column index.
\<close>

record block =
  Start_Row :: "nat list"
  Start_Col :: "nat list"
  Stop_Row :: "nat list"
  Stop_Col :: "nat list"

definition find_blocks :: "bool list list \<Rightarrow> error + block" where
  "find_blocks np_mask =
     (if list_ex (\<lambda>row. row = []) np_mask then Inl IndexError
      else let starts = np_where (map start_nans_row np_mask);
               stops = np_where (map stop_nans_row np_mask)
           in Inr \<lparr>Start_Row = map snd starts, Start_Col = map fst starts,
                   Stop_Row = map snd stops, Stop_Col = map fst stops\<rparr>)"

section \<open>Recording test results\<close>

text \<open>
  \<^verbatim>\<open>mask[~self.tfilter] = False\<close>. A boolean Series used as a row indexer must have
  the length of the mask; it is taken by position when its labels are the mask's
  index and is otherwise re-indexed by label, which needs unique labels and a value for
  every row of the mask.
\<close>

definition align_tfilter :: "(timestamp \<times> bool) list \<Rightarrow> timestamp list \<Rightarrow> error + bool list" where
  "align_tfilter tf idx =
     (if length tf \<noteq> length idx then Inl ValueError
      else if map fst tf = idx then Inr (map snd tf)
      else if \<not> distinct (map fst tf) then Inl ValueError
      else if list_ex (\<lambda>t. map_of tf t = None) idx then Inl IndexingError
      else Inr (map (\<lambda>t. the (map_of tf t)) idx))"

definition clear_rows :: "bool list \<Rightarrow> bool frame \<Rightarrow> bool frame" where
  "clear_rows keep fmask = fmask\<lparr>cells := map (\<lambda>col. map2 (\<lambda>k v. k \<and> v) keep col) (cells fmask)\<rparr>"

definition apply_tfilter :: "(timestamp \<times> bool) list \<Rightarrow> bool frame \<Rightarrow> error + bool frame" where
  "apply_tfilter tf fmask =
     (if tf = [] then Inr fmask
      else case align_tfilter tf (index fmask) of
             Inl e \<Rightarrow> Inl e
           | Inr keep \<Rightarrow> Inr (clear_rows keep fmask))"

text \<open>\<^verbatim>\<open>mask.sum(axis=1).sum(axis=0)\<close>: the number of true cells.\<close>

definition count_true :: "bool frame \<Rightarrow> nat" where
  "count_true fmask = (\<Sum>col\<leftarrow>cells fmask. length (filter id col))"

text \<open>
  \<^verbatim>\<open>self.df[mask.columns]\<close>: every label must be a column of the table; a label that
  names several columns selects all of them.
\<close>

definition select_columns :: "'a frame \<Rightarrow> string list \<Rightarrow> error + 'a frame" where
  "select_columns f names =
     (if list_ex (\<lambda>n. n \<notin> set (columns f)) names then Inl KeyError
      else Inr \<lparr>index = index f,
                columns = concat (map (\<lambda>n. filter (\<lambda>c. c = n) (columns f)) names),
                cells = concat (map (\<lambda>n. map snd (filter (\<lambda>p. fst p = n) (zip (columns f) (cells f)))) names)\<rparr>)"

text \<open>
  Of \<^verbatim>\<open>sub_df\<close> the loop reads the index and the column names only: those of the mask
  with \<^verbatim>\<open>use_mask_only\<close>, those of \<^verbatim>\<open>self.df[mask.columns]\<close> otherwise.
\<close>

definition sub_df_axes :: "pm \<Rightarrow> bool frame \<Rightarrow> bool \<Rightarrow> error + timestamp list \<times> string list" where
  "sub_df_axes st fmask use_mask_only =
     (if use_mask_only then Inr (index fmask, columns fmask)
      else case select_columns (df st) (columns fmask) of
             Inl e \<Rightarrow> Inl e
           | Inr sub_df \<Rightarrow> Inr (index sub_df, columns sub_df))"

text \<open>\<^verbatim>\<open>length = block['Stop Row'][i] - block['Start Row'][i] + 1\<close>, a signed integer.\<close>

definition block_length :: "block \<Rightarrow> nat \<Rightarrow> int" where
  "block_length b i = int (Stop_Row b ! i) - int (Start_Row b ! i) + 1"

definition block_result :: "timestamp list \<Rightarrow> string list \<Rightarrow> bool \<Rightarrow> string \<Rightarrow> block \<Rightarrow> nat \<Rightarrow> test_result" where
  "block_result idx names use_mask_only error_msg b i =
     \<lparr>Variable_Name = (if use_mask_only then [] else names ! (Start_Col b ! i)),
      Start_Time = idx ! (Start_Row b ! i),
      End_Time = idx ! (Stop_Row b ! i),
      Timesteps = block_length b i,
      Error_Flag = error_msg\<rparr>"

text \<open>
  The loop \<^verbatim>\<open>for i in range(len(block['Start Col']))\<close>, over the remaining values of
  \<open>i\<close>. Reading a list past its end raises \<^verbatim>\<open>IndexError\<close>; what was appended before
  stays appended.
\<close>

fun record_blocks ::
  "pm \<Rightarrow> timestamp list \<Rightarrow> string list \<Rightarrow> bool \<Rightarrow> string \<Rightarrow> int \<Rightarrow> block \<Rightarrow> nat list \<Rightarrow> pm outcome" where
  "record_blocks st idx names use_mask_only error_msg min_failures b [] = Returned st"
| "record_blocks st idx names use_mask_only error_msg min_failures b (i # rest) =
     (if length (Stop_Row b) \<le> i \<or> length (Start_Row b) \<le> i then Raised IndexError st
      else if min_failures \<le> block_length b i then
        (if \<not> use_mask_only \<and> length names \<le> Start_Col b ! i then Raised IndexError st
         else if length idx \<le> Start_Row b ! i \<or> length idx \<le> Stop_Row b ! i then Raised IndexError st
         else record_blocks
                (st\<lparr>test_results := test_results st @ [block_result idx names use_mask_only error_msg b i]\<rparr>)
                idx names use_mask_only error_msg min_failures b rest)
      else record_blocks st idx names use_mask_only error_msg min_failures b rest)"

definition append_test_results :: "pm \<Rightarrow> bool frame \<Rightarrow> string \<Rightarrow> int \<Rightarrow> bool \<Rightarrow> pm outcome" where
  "append_test_results st fmask error_msg min_failures use_mask_only =
     (case apply_tfilter (tfilter st) fmask of
        Inl e \<Rightarrow> Raised e st
      | Inr fmask \<Rightarrow>
          if count_true fmask = 0 then Returned st
          else case sub_df_axes st fmask use_mask_only of
            Inl e \<Rightarrow> Raised e st
          | Inr (idx, names) \<Rightarrow>
              (case find_blocks (cells fmask) of
                 Inl e \<Rightarrow> Raised e st
               | Inr b \<Rightarrow> record_blocks st idx names use_mask_only error_msg min_failures b
                           [0..<length (Start_Col b)]))"

section \<open>The aggregate mask and the cleaned data\<close>

text \<open>
  A label slice \<^verbatim>\<open>.loc[start:stop]\<close> of a time index is resolved by pandas to a range of
  positions. The left bound of a label that occurs in the index is its first position
  and the right bound is one past its last position, provided its occurrences are
  adjacent; a label that does not occur is located by binary search when the index is
  monotonic (in either direction). Every other case raises \<^verbatim>\<open>KeyError\<close>.
\<close>

definition positions :: "timestamp list \<Rightarrow> timestamp \<Rightarrow> nat list" where
  "positions idx t = filter (\<lambda>i. idx ! i = t) [0..<length idx]"

definition get_slice_bound :: "timestamp list \<Rightarrow> timestamp \<Rightarrow> bool \<Rightarrow> nat option" where
  "get_slice_bound idx label left =
     (let ps = positions idx label in
      if ps = [] then
        (if sorted idx then
           Some (if left then length (filter (\<lambda>t. t < label) idx)
                 else length (filter (\<lambda>t. t \<le> label) idx))
         else if sorted (rev idx) then
           Some (if left then length (filter (\<lambda>t. label < t) idx)
                 else length (filter (\<lambda>t. label \<le> t) idx))
         else None)
      else if last ps + 1 - hd ps = length ps then Some (if left then hd ps else last ps + 1)
      else None)"

definition loc_rows :: "timestamp list \<Rightarrow> timestamp \<Rightarrow> timestamp \<Rightarrow> nat list option" where
  "loc_rows idx start stop =
     (case get_slice_bound idx start True of
        None \<Rightarrow> None
      | Some lo \<Rightarrow> (case get_slice_bound idx stop False of
                     None \<Rightarrow> None
                   | Some hi \<Rightarrow> Some [lo..<hi]))"

text \<open>Assigning \<open>v\<close> to the given rows of every column labelled \<open>variable\<close>.\<close>

definition assign_rows :: "nat list \<Rightarrow> 'a \<Rightarrow> 'a list \<Rightarrow> 'a list" where
  "assign_rows rows v col = map2 (\<lambda>i x. if i \<in> set rows then v else x) [0..<length col] col"

definition assign_cells :: "nat list \<Rightarrow> string \<Rightarrow> 'a \<Rightarrow> 'a frame \<Rightarrow> 'a frame" where
  "assign_cells rows variable v f =
     f\<lparr>cells := map2 (\<lambda>name col. if name = variable then assign_rows rows v col else col)
                  (columns f) (cells f)\<rparr>"

text \<open>\<^verbatim>\<open>~pd.isnull(self.df)\<close>\<close>

definition notnull :: "cell frame \<Rightarrow> bool frame" where
  "notnull f = \<lparr>index = index f, columns = columns f, cells = map (map (\<lambda>x. x \<noteq> None)) (cells f)\<rparr>"

text \<open>
  One pass of the loop of the property \<^verbatim>\<open>mask\<close>: a result whose variable is a column
  has its time range set to \<^verbatim>\<open>False\<close>; the bare \<^verbatim>\<open>except\<close> swallows a failed slice.
\<close>

definition fold_result :: "test_result \<Rightarrow> bool frame \<Rightarrow> bool frame" where
  "fold_result r m =
     (if Variable_Name r \<in> set (columns m) then
        (case loc_rows (index m) (Start_Time r) (End_Time r) of
           None \<Rightarrow> m
         | Some rows \<Rightarrow> assign_cells rows (Variable_Name r) False m)
      else m)"

text \<open>
  The property \<^verbatim>\<open>mask\<close> returns \<^verbatim>\<open>None\<close> for an empty table, after logging, and the
  folded mask otherwise. The first component is the object after the call.
\<close>

definition pm_mask :: "pm \<Rightarrow> pm \<times> bool frame option" where
  "pm_mask st =
     (if empty_frame (df st) then (st\<lparr>logged := logged st @ [Info ''Empty database'']\<rparr>, None)
      else (st, Some (fold fold_result (test_results st) (notnull (df st)))))"

text \<open>
  \<^verbatim>\<open>self.df[mask]\<close> with a boolean table keeps the cells where the mask is true and makes
  the others absent; \<^verbatim>\<open>self.df[None]\<close> raises \<^verbatim>\<open>KeyError\<close>, no column being labelled
  \<^verbatim>\<open>None\<close>.
\<close>

definition where_frame :: "cell frame \<Rightarrow> bool frame \<Rightarrow> cell frame" where
  "where_frame f m = f\<lparr>cells := map2 (map2 (\<lambda>x keep. if keep then x else None)) (cells f) (cells m)\<rparr>"

definition cleaned_data :: "pm \<Rightarrow> pm \<times> (error + cell frame)" where
  "cleaned_data st =
     (case pm_mask st of
        (st', None) \<Rightarrow> (st', Inl KeyError)
      | (st', Some m) \<Rightarrow> (st', Inr (where_frame (df st) m)))"

section \<open>Setting up a test\<close>

text \<open>
  \<^verbatim>\<open>_setup_data\<close> returns \<^verbatim>\<open>None\<close> for an empty table and for a key that cannot be
  resolved (the bare \<^verbatim>\<open>except\<close> catches the \<^verbatim>\<open>KeyError\<close> of the dictionary and of the
  column selection alike). A key is a string or \<^verbatim>\<open>None\<close>.
\<close>

definition setup_data :: "pm \<Rightarrow> string option \<Rightarrow> pm \<times> cell frame option" where
  "setup_data st key =
     (if empty_frame (df st) then (st\<lparr>logged := logged st @ [Info ''Empty database'']\<rparr>, None)
      else case key of
        None \<Rightarrow> (st, Some (df st))
      | Some k \<Rightarrow>
          (case trans_dict st k of
             None \<Rightarrow> (st\<lparr>logged := logged st @ [Warning (''Undefined key: '' @ k)]\<rparr>, None)
           | Some names \<Rightarrow>
               (case select_columns (df st) names of
                  Inl e \<Rightarrow> (st\<lparr>logged := logged st @ [Warning (''Undefined key: '' @ k)]\<rparr>, None)
                | Inr sub \<Rightarrow> (st, Some sub))))"

section \<open>Bounds\<close>

text \<open>
  An entry of the list \<^verbatim>\<open>bound\<close>: a number, a string, \<^verbatim>\<open>None\<close>, \<^verbatim>\<open>[]\<close> or \<^verbatim>\<open>{}\<close>. The
  list is the caller's object; a call that assigns to it returns it beside the state.
\<close>

datatype bound_entry = BNum real | BStr string | BNone | BEmptyList | BEmptyDict

definition none_list :: "bound_entry list" where
  "none_list = [BStr [], BStr ''none'', BStr ''None'', BStr ''NONE'', BNone, BEmptyList, BEmptyDict]"

text \<open>
  \<^verbatim>\<open>for i in range(len(bound)): if bound[i] in none_list: bound[i] = None\<close>
\<close>

definition normalize_bound :: "bound_entry list \<Rightarrow> bound_entry list" where
  "normalize_bound bound =
     fold (\<lambda>i b. if b ! i \<in> set none_list then b[i := BNone] else b) [0..<length bound] bound"

text \<open>\<^verbatim>\<open>df < b\<close> and \<^verbatim>\<open>df > b\<close>: an absent cell compares false.\<close>

definition frame_lt :: "cell frame \<Rightarrow> real \<Rightarrow> bool frame" where
  "frame_lt f b = \<lparr>index = index f, columns = columns f,
     cells = map (map (\<lambda>x. case x of None \<Rightarrow> False | Some v \<Rightarrow> v < b)) (cells f)\<rparr>"

definition frame_gt :: "cell frame \<Rightarrow> real \<Rightarrow> bool frame" where
  "frame_gt f b = \<lparr>index = index f, columns = columns f,
     cells = map (map (\<lambda>x. case x of None \<Rightarrow> False | Some v \<Rightarrow> b < v)) (cells f)\<rparr>"

text \<open>Pairing the state of an outcome with the list argument.\<close>

fun with_bound :: "pm outcome \<Rightarrow> bound_entry list \<Rightarrow> (pm \<times> bound_entry list) outcome" where
  "with_bound (Returned st) bound = Returned (st, bound)"
| "with_bound (Raised e st) bound = Raised e (st, bound)"

text \<open>
  \<^verbatim>\<open>_generate_test_results\<close>. The function \<open>str\<close> stands for Python's \<^verbatim>\<open>str\<close> on the
  number of a bound. Comparing the table with a string raises \<^verbatim>\<open>TypeError\<close>; reading
  \<^verbatim>\<open>bound[0]\<close> or \<^verbatim>\<open>bound[1]\<close> past the end of the list raises \<^verbatim>\<open>IndexError\<close>.
\<close>

definition lower_bound_test ::
  "(real \<Rightarrow> string) \<Rightarrow> pm \<Rightarrow> cell frame \<Rightarrow> bound_entry list \<Rightarrow> int \<Rightarrow> string \<Rightarrow> pm outcome" where
  "lower_bound_test str st data bound min_failures error_prefix =
     (if bound = [] then Raised IndexError st
      else case bound ! 0 of
        BNone \<Rightarrow> Returned st
      | BNum b \<Rightarrow> append_test_results st (frame_lt data b)
                   (error_prefix @ '' < lower bound, '' @ str b) min_failures False
      | _ \<Rightarrow> Raised TypeError st)"

definition upper_bound_test ::
  "(real \<Rightarrow> string) \<Rightarrow> pm \<Rightarrow> cell frame \<Rightarrow> bound_entry list \<Rightarrow> int \<Rightarrow> string \<Rightarrow> pm outcome" where
  "upper_bound_test str st data bound min_failures error_prefix =
     (if length bound < 2 then Raised IndexError st
      else case bound ! 1 of
        BNone \<Rightarrow> Returned st
      | BNum b \<Rightarrow> append_test_results st (frame_gt data b)
                   (error_prefix @ '' > upper bound, '' @ str b) min_failures False
      | _ \<Rightarrow> Raised TypeError st)"

definition generate_test_results ::
  "(real \<Rightarrow> string) \<Rightarrow> pm \<Rightarrow> cell frame \<Rightarrow> bound_entry list \<Rightarrow> int \<Rightarrow> string
     \<Rightarrow> (pm \<times> bound_entry list) outcome" where
  "generate_test_results str st data bound min_failures error_prefix =
     (let bound = normalize_bound bound in
      case lower_bound_test str st data bound min_failures error_prefix of
        Raised e st \<Rightarrow> Raised e (st, bound)
      | Returned st \<Rightarrow> with_bound (upper_bound_test str st data bound min_failures error_prefix) bound)"

section \<open>Range and increment tests\<close>

definition check_range ::
  "(real \<Rightarrow> string) \<Rightarrow> pm \<Rightarrow> bound_entry list \<Rightarrow> string option \<Rightarrow> int
     \<Rightarrow> (pm \<times> bound_entry list) outcome" where
  "check_range str st bound key min_failures =
     (case setup_data (st\<lparr>logged := logged st @ [Info ''Check data range'']\<rparr>) key of
        (st, None) \<Rightarrow> Returned (st, bound)
      | (st, Some data) \<Rightarrow> generate_test_results str st data bound min_failures ''Data'')"

text \<open>
  \<^verbatim>\<open>df.diff(periods=increment)\<close>: the cell minus the cell \<open>increment\<close> rows before it,
  absent when either is absent or there is no such row. Subtraction is that of the
  reals.
\<close>

definition diff_col :: "int \<Rightarrow> cell list \<Rightarrow> cell list" where
  "diff_col periods col =
     map (\<lambda>i. let j = int i - periods in
            if 0 \<le> j \<and> j < int (length col) then
              (case (col ! i, col ! nat j) of (Some a, Some b) \<Rightarrow> Some (a - b) | _ \<Rightarrow> None)
            else None)
       [0..<length col]"

definition map_frame :: "('a list \<Rightarrow> 'b list) \<Rightarrow> 'a frame \<Rightarrow> 'b frame" where
  "map_frame g f = \<lparr>index = index f, columns = columns f, cells = map g (cells f)\<rparr>"

definition abs_col :: "cell list \<Rightarrow> cell list" where
  "abs_col col = map (map_option abs) col"

text \<open>\<^verbatim>\<open>df.isnull().all().all()\<close>\<close>

definition all_null :: "cell frame \<Rightarrow> bool" where
  "all_null f = list_all (list_all (\<lambda>x. x = None)) (cells f)"

text \<open>\<^verbatim>\<open>np.abs(df.diff(periods=increment))\<close> or \<^verbatim>\<open>df.diff(periods=increment)\<close>\<close>

definition increments :: "int \<Rightarrow> bool \<Rightarrow> cell frame \<Rightarrow> cell frame" where
  "increments periods absolute_value data =
     (if absolute_value then map_frame (\<lambda>col. abs_col (diff_col periods col)) data
      else map_frame (diff_col periods) data)"

text \<open>
  \<^verbatim>\<open>check_increment\<close>. The warning for a table without a present cell concatenates
  the key to a string, which raises \<^verbatim>\<open>TypeError\<close> when the key is \<^verbatim>\<open>None\<close>.
\<close>

definition check_increment ::
  "(real \<Rightarrow> string) \<Rightarrow> pm \<Rightarrow> bound_entry list \<Rightarrow> string option \<Rightarrow> int \<Rightarrow> bool \<Rightarrow> int
     \<Rightarrow> (pm \<times> bound_entry list) outcome" where
  "check_increment str st bound key increment absolute_value min_failures =
     (case setup_data (st\<lparr>logged := logged st @ [Info ''Check increment range'']\<rparr>) key of
        (st, None) \<Rightarrow> Returned (st, bound)
      | (st, Some data) \<Rightarrow>
          if all_null data then
            (case key of
               None \<Rightarrow> Raised TypeError (st, bound)
             | Some k \<Rightarrow> Returned (st\<lparr>logged := logged st @
                  [Warning (''Check increment range failed (all data is Null): '' @ k)]\<rparr>, bound))
          else
            generate_test_results str st (increments increment absolute_value data) bound min_failures
              (if absolute_value then ''|Increment|'' else ''Increment''))"

section \<open>The rolling delta test\<close>

text \<open>
  A rolling window given as a time span (in nanoseconds here) ends at its row and
  holds the earlier rows whose timestamp is later than the row's timestamp minus the
  span. Rolling over a time span needs a monotonic index.
\<close>

definition window_rows :: "timestamp list \<Rightarrow> int \<Rightarrow> nat \<Rightarrow> nat list" where
  "window_rows idx w r = filter (\<lambda>j. j = r \<or> idx ! r - w < idx ! j) [0..<Suc r]"

definition window_data :: "timestamp list \<Rightarrow> cell list \<Rightarrow> int \<Rightarrow> nat \<Rightarrow> (timestamp \<times> cell) list" where
  "window_data idx col w r = map (\<lambda>j. (idx ! j, col ! j)) (window_rows idx w r)"

text \<open>
  The nested function \<^verbatim>\<open>f(data, method)\<close> of \<^verbatim>\<open>check_delta\<close>, on the rows of one
  window: absent unless two cells are present. \<^verbatim>\<open>idxmin\<close> and \<^verbatim>\<open>idxmax\<close> are the
  timestamps of the first least and the first greatest present value, as numbers.
\<close>

datatype delta_method = Idxmin | Min_value | Idxmax | Max_value

definition present :: "(timestamp \<times> cell) list \<Rightarrow> (timestamp \<times> real) list" where
  "present data = List.map_filter (\<lambda>p. map_option (Pair (fst p)) (snd p)) data"

definition delta_f :: "(timestamp \<times> cell) list \<Rightarrow> delta_method \<Rightarrow> real option" where
  "delta_f data method =
     (let valid = present data;
          vs = map snd valid
      in if length valid < 2 then None
         else case method of
           Idxmin \<Rightarrow> Some (of_int (fst (hd (filter (\<lambda>p. snd p = fold min (tl vs) (hd vs)) valid))))
         | Min_value \<Rightarrow> Some (fold min (tl vs) (hd vs))
         | Idxmax \<Rightarrow> Some (of_int (fst (hd (filter (\<lambda>p. snd p = fold max (tl vs) (hd vs)) valid))))
         | Max_value \<Rightarrow> Some (fold max (tl vs) (hd vs)))"

text \<open>\<^verbatim>\<open>df.rolling(window_str).apply(lambda x: f(x, method), raw=False)\<close>\<close>

definition rolling_apply :: "int \<Rightarrow> delta_method \<Rightarrow> cell frame \<Rightarrow> cell frame" where
  "rolling_apply w method data =
     map_frame (\<lambda>col. map (\<lambda>r. delta_f (window_data (index data) col w r) method) [0..<length col]) data"

text \<open>\<^verbatim>\<open>astype('datetime64[ns]')\<close>: an absent number becomes \<^verbatim>\<open>NaT\<close>.\<close>

definition as_datetime :: "cell frame \<Rightarrow> timestamp option frame" where
  "as_datetime data = map_frame (map (map_option floor)) data"

text \<open>
  \<^verbatim>\<open>diff_df = max_df - min_df\<close>, negated where \<^verbatim>\<open>tmax_df < tmin_df\<close> unless
  \<^verbatim>\<open>absolute_value\<close>.
\<close>

definition frame_sub :: "cell frame \<Rightarrow> cell frame \<Rightarrow> cell frame" where
  "frame_sub a b = a\<lparr>cells := map2 (map2 (\<lambda>x y. case (x, y) of (Some u, Some v) \<Rightarrow> Some (u - v) | _ \<Rightarrow> None))
                               (cells a) (cells b)\<rparr>"

definition reverse_order :: "timestamp option frame \<Rightarrow> timestamp option frame \<Rightarrow> bool list list" where
  "reverse_order tmax tmin =
     map2 (map2 (\<lambda>x y. case (x, y) of (Some u, Some v) \<Rightarrow> u < v | _ \<Rightarrow> False)) (cells tmax) (cells tmin)"

definition negate_where :: "bool list list \<Rightarrow> cell frame \<Rightarrow> cell frame" where
  "negate_where flags d = d\<lparr>cells := map2 (map2 (\<lambda>neg x. if neg then map_option uminus x else x)) flags (cells d)\<rparr>"

text \<open>
  \<^verbatim>\<open>extract_exact_position\<close>. The flagged cells are visited row by row. Reading
  \<^verbatim>\<open>tmin_df.loc[t,col]\<close> yields a scalar, as the comparison needs, only when the labels
  \<open>t\<close> and \<open>col\<close> are unique. A flagged cell has both timestamps; the slice is not
  guarded by an \<^verbatim>\<open>except\<close>.
\<close>

definition flagged_cells :: "bool frame \<Rightarrow> (nat \<times> nat) list" where
  "flagged_cells mask1 =
     concat (map (\<lambda>r. map (Pair r) (filter (\<lambda>c. cells mask1 ! c ! r) [0..<length (columns mask1)]))
               [0..<length (index mask1)])"

fun mark_spans ::
  "timestamp option frame \<Rightarrow> timestamp option frame \<Rightarrow> (nat \<times> nat) list \<Rightarrow> bool frame \<Rightarrow> error + bool frame" where
  "mark_spans tmin tmax [] mask2 = Inr mask2"
| "mark_spans tmin tmax ((r, c) # rest) mask2 =
     (let t = index mask2 ! r; col = columns mask2 ! c in
      if count_list (index mask2) t \<noteq> 1 \<or> count_list (columns mask2) col \<noteq> 1 then Inl ValueError
      else
        let mask2 = assign_cells (positions (index mask2) t) col False mask2 in
        case (cells tmin ! c ! r, cells tmax ! c ! r) of
          (Some start_time, Some end_time) \<Rightarrow>
            (case (if start_time < end_time then loc_rows (index mask2) start_time end_time
                   else loc_rows (index mask2) end_time start_time) of
               None \<Rightarrow> Inl KeyError
             | Some rows \<Rightarrow> mark_spans tmin tmax rest (assign_cells rows col True mask2))
        | _ \<Rightarrow> Inl TypeError)"

definition extract_exact_position ::
  "bool frame \<Rightarrow> timestamp option frame \<Rightarrow> timestamp option frame \<Rightarrow> error + bool frame" where
  "extract_exact_position mask1 tmin tmax =
     mark_spans tmin tmax (flagged_cells mask1)
       \<lparr>index = index mask1, columns = columns mask1,
         cells = map (map (\<lambda>x. False)) (cells mask1)\<rparr>"

definition delta_lower_test ::
  "(real \<Rightarrow> string) \<Rightarrow> pm \<Rightarrow> cell frame \<Rightarrow> timestamp option frame \<Rightarrow> timestamp option frame
     \<Rightarrow> bound_entry list \<Rightarrow> int \<Rightarrow> string \<Rightarrow> pm outcome" where
  "delta_lower_test str st diff_df tmin tmax bound min_failures error_prefix =
     (if bound = [] then Raised IndexError st
      else case bound ! 0 of
        BNone \<Rightarrow> Returned st
      | BNum b \<Rightarrow>
          (case apply_tfilter (tfilter st) (frame_lt diff_df b) of
             Inl e \<Rightarrow> Raised e st
           | Inr mask1 \<Rightarrow>
               if 0 < count_true mask1 then
                 (case extract_exact_position mask1 tmin tmax of
                    Inl e \<Rightarrow> Raised e st
                  | Inr mask2 \<Rightarrow> append_test_results st mask2
                      (error_prefix @ '' < lower bound, '' @ str b) min_failures False)
               else Returned st)
      | _ \<Rightarrow> Raised TypeError st)"

definition delta_upper_test ::
  "(real \<Rightarrow> string) \<Rightarrow> pm \<Rightarrow> cell frame \<Rightarrow> timestamp option frame \<Rightarrow> timestamp option frame
     \<Rightarrow> bound_entry list \<Rightarrow> int \<Rightarrow> string \<Rightarrow> pm outcome" where
  "delta_upper_test str st diff_df tmin tmax bound min_failures error_prefix =
     (if length bound < 2 then Raised IndexError st
      else case bound ! 1 of
        BNone \<Rightarrow> Returned st
      | BNum b \<Rightarrow>
          (case apply_tfilter (tfilter st) (frame_gt diff_df b) of
             Inl e \<Rightarrow> Raised e st
           | Inr mask1 \<Rightarrow>
               if 0 < count_true mask1 then
                 (case extract_exact_position mask1 tmin tmax of
                    Inl e \<Rightarrow> Raised e st
                  | Inr mask2 \<Rightarrow> append_test_results st mask2
                      (error_prefix @ '' > upper bound, '' @ str b) min_failures False)
               else Returned st)
      | _ \<Rightarrow> Raised TypeError st)"

text \<open>
  The tables \<^verbatim>\<open>tmin_df\<close>, \<^verbatim>\<open>tmax_df\<close> and \<^verbatim>\<open>diff_df\<close> of \<^verbatim>\<open>check_delta\<close> for a window of
  \<open>w\<close> nanoseconds.
\<close>

definition tmin_df :: "int \<Rightarrow> cell frame \<Rightarrow> timestamp option frame" where
  "tmin_df w data = as_datetime (rolling_apply w Idxmin data)"

definition tmax_df :: "int \<Rightarrow> cell frame \<Rightarrow> timestamp option frame" where
  "tmax_df w data = as_datetime (rolling_apply w Idxmax data)"

definition diff_df :: "int \<Rightarrow> bool \<Rightarrow> cell frame \<Rightarrow> cell frame" where
  "diff_df w absolute_value data =
     (let d = frame_sub (rolling_apply w Max_value data) (rolling_apply w Min_value data)
      in if absolute_value then d else negate_where (reverse_order (tmax_df w data) (tmin_df w data)) d)"

text \<open>
  \<^verbatim>\<open>check_delta\<close>, with the window in whole seconds. The bounds are rewritten after the
  rolling tables are built and before they are compared.
\<close>

definition check_delta ::
  "(real \<Rightarrow> string) \<Rightarrow> pm \<Rightarrow> bound_entry list \<Rightarrow> string option \<Rightarrow> int \<Rightarrow> bool \<Rightarrow> int
     \<Rightarrow> (pm \<times> bound_entry list) outcome" where
  "check_delta str st bound key window absolute_value min_failures =
     (case setup_data (st\<lparr>logged := logged st @ [Info ''Check delta (max-min) range'']\<rparr>) key of
        (st, None) \<Rightarrow> Returned (st, bound)
      | (st, Some data) \<Rightarrow>
          if \<not> sorted (index data) then Raised ValueError (st, bound)
          else
            let w = window * 1000000000;
                error_prefix = (if absolute_value then ''|Delta|'' else ''Delta'');
                bound = normalize_bound bound
            in case delta_lower_test str st (diff_df w absolute_value data) (tmin_df w data) (tmax_df w data)
                      bound min_failures error_prefix of
                 Raised e st \<Rightarrow> Raised e (st, bound)
               | Returned st \<Rightarrow>
                   with_bound (delta_upper_test str st (diff_df w absolute_value data) (tmin_df w data)
                                 (tmax_df w data) bound min_failures error_prefix)
                     bound)"

section \<open>The outlier test\<close>

text \<open>
  The table is normalised as \<^verbatim>\<open>(df - mean)/std\<close>, over the rolling window or, with
  \<^verbatim>\<open>window = None\<close>, over each whole column. The mean and the sample standard
  deviation are taken over the present cells, with the arithmetic of the reals; the
  deviation needs two of them. A quotient by a zero deviation is infinite or
  undefined, and \<^verbatim>\<open>df.replace([np.inf, -np.inf], np.nan)\<close> makes it absent.
\<close>

definition mean :: "real list \<Rightarrow> real" where
  "mean vs = sum_list vs / real (length vs)"

definition std :: "real list \<Rightarrow> real" where
  "std vs = sqrt ((\<Sum>v\<leftarrow>vs. (v - mean vs)\<^sup>2) / real (length vs - 1))"

definition normalized :: "real list \<Rightarrow> cell \<Rightarrow> cell" where
  "normalized vs x =
     (case x of
        None \<Rightarrow> None
      | Some v \<Rightarrow> if length vs < 2 \<or> std vs = 0 then None else Some ((v - mean vs) / std vs))"

definition normalize_frame :: "int option \<Rightarrow> cell frame \<Rightarrow> cell frame" where
  "normalize_frame window data =
     (case window of
        None \<Rightarrow> map_frame (\<lambda>col. map (normalized (List.map_filter id col)) col) data
      | Some w \<Rightarrow>
          map_frame (\<lambda>col. map (\<lambda>r. normalized
                                  (map snd (present (window_data (index data) col (w * 1000000000) r)))
                                  (col ! r))
                            [0..<length col]) data)"

definition check_outlier ::
  "(real \<Rightarrow> string) \<Rightarrow> pm \<Rightarrow> bound_entry list \<Rightarrow> string option \<Rightarrow> int option \<Rightarrow> bool \<Rightarrow> int
     \<Rightarrow> (pm \<times> bound_entry list) outcome" where
  "check_outlier str st bound key window absolute_value min_failures =
     (case setup_data (st\<lparr>logged := logged st @ [Info ''Check for outliers'']\<rparr>) key of
        (st, None) \<Rightarrow> Returned (st, bound)
      | (st, Some data) \<Rightarrow>
          if window \<noteq> None \<and> \<not> sorted (index data) then Raised ValueError (st, bound)
          else
            generate_test_results str st
              (if absolute_value then map_frame abs_col (normalize_frame window data)
               else normalize_frame window data)
              bound min_failures
              (if absolute_value then ''|Outlier|'' else ''Outlier''))"

section \<open>Missing and corrupt data\<close>

text \<open>
  \<^verbatim>\<open>check_missing\<close> flags the absent cells, except in the time range of every recorded
  \<^verbatim>\<open>'Missing timestamp'\<close> row; that slice is not guarded by an \<^verbatim>\<open>except\<close>.
\<close>

fun clear_missing_timestamps :: "test_result list \<Rightarrow> bool frame \<Rightarrow> error + bool frame" where
  "clear_missing_timestamps [] fmask = Inr fmask"
| "clear_missing_timestamps (row # rest) fmask =
     (if Error_Flag row = ''Missing timestamp'' then
        (case loc_rows (index fmask) (Start_Time row) (End_Time row) of
           None \<Rightarrow> Inl KeyError
         | Some rows \<Rightarrow>
             clear_missing_timestamps rest (fmask\<lparr>cells := map (assign_rows rows False) (cells fmask)\<rparr>))
      else clear_missing_timestamps rest fmask)"

definition check_missing :: "pm \<Rightarrow> string option \<Rightarrow> int \<Rightarrow> pm outcome" where
  "check_missing st key min_failures =
     (case setup_data (st\<lparr>logged := logged st @ [Info ''Check for missing data'']\<rparr>) key of
        (st, None) \<Rightarrow> Returned st
      | (st, Some data) \<Rightarrow>
          (case clear_missing_timestamps (test_results st) (map_frame (map (\<lambda>x. x = None)) data) of
             Inl e \<Rightarrow> Raised e st
           | Inr fmask \<Rightarrow> append_test_results st fmask ''Missing data'' min_failures False))"

text \<open>
  \<^verbatim>\<open>check_corrupt\<close> flags the cells equal to one of \<^verbatim>\<open>corrupt_values\<close> and makes them
  absent in \<^verbatim>\<open>self.df\<close>. The assignment \<^verbatim>\<open>self.df[mask] = np.nan\<close> aligns the mask
  with the table: by position when the column labels agree, by label when the labels
  of both are unique; duplicate labels cannot be aligned.
\<close>

definition scrub_col :: "cell list \<Rightarrow> bool list \<Rightarrow> cell list" where
  "scrub_col col flags = map2 (\<lambda>x flag. if flag then None else x) col flags"

definition scrub :: "cell frame \<Rightarrow> bool frame \<Rightarrow> error + cell frame" where
  "scrub table fmask =
     (if columns fmask = columns table then
        Inr (table\<lparr>cells := map2 scrub_col (cells table) (cells fmask)\<rparr>)
      else if distinct (columns table) \<and> distinct (columns fmask) then
        Inr (table\<lparr>cells := map2 (\<lambda>name col.
                 case map_of (zip (columns fmask) (cells fmask)) name of
                   None \<Rightarrow> col
                 | Some flags \<Rightarrow> scrub_col col flags)
               (columns table) (cells table)\<rparr>)
      else Inl ValueError)"

definition check_corrupt :: "pm \<Rightarrow> real list \<Rightarrow> string option \<Rightarrow> int \<Rightarrow> pm outcome" where
  "check_corrupt st corrupt_values key min_failures =
     (case setup_data (st\<lparr>logged := logged st @ [Info ''Check for corrupt data'']\<rparr>) key of
        (st, None) \<Rightarrow> Returned st
      | (st, Some data) \<Rightarrow>
          (let fmask = map_frame (map (\<lambda>x. case x of None \<Rightarrow> False | Some v \<Rightarrow> v \<in> set corrupt_values)) data
           in case scrub (df st) fmask of
                Inl e \<Rightarrow> Raised e st
              | Inr table \<Rightarrow> append_test_results (st\<lparr>df := table\<rparr>) fmask ''Corrupt data'' min_failures False))"

section \<open>The timestamp test\<close>

text \<open>
  \<^verbatim>\<open>pd.date_range(start, end, freq)\<close> for a positive step: the grid from the start up to
  the end.
\<close>

definition date_range :: "timestamp \<Rightarrow> timestamp \<Rightarrow> int \<Rightarrow> timestamp list" where
  "date_range start stop step =
     (if stop < start then []
      else map (\<lambda>k. start + int k * step) [0..<Suc (nat ((stop - start) div step))])"

text \<open>
  \<^verbatim>\<open>pd.Series(self.df.index).diff()\<close> compared with zero: the first entry has no
  predecessor and compares false. \<^verbatim>\<open>mask[mask.index[0]] = False\<close> then clears every
  entry labelled like the first.
\<close>

definition diff_flags :: "(int \<Rightarrow> bool) \<Rightarrow> timestamp list \<Rightarrow> bool list" where
  "diff_flags test idx =
     map2 (\<lambda>t flag. if t = hd idx then False else flag) idx
       (False # map2 (\<lambda>a b. test (b - a)) (butlast idx) (tl idx))"

definition timestamp_mask :: "timestamp list \<Rightarrow> bool list \<Rightarrow> bool frame" where
  "timestamp_mask idx flags = \<lparr>index = idx, columns = [''0''], cells = [flags]\<rparr>"

text \<open>Selecting rows by position; sorting by label; the rows that \<^verbatim>\<open>drop_duplicates\<close> keeps.\<close>

definition take_rows :: "nat list \<Rightarrow> 'a frame \<Rightarrow> 'a frame" where
  "take_rows rows f = \<lparr>index = map (\<lambda>i. index f ! i) rows, columns = columns f,
                         cells = map (\<lambda>col. map (\<lambda>i. col ! i) rows) (cells f)\<rparr>"

definition sort_index :: "'a frame \<Rightarrow> 'a frame" where
  "sort_index f = take_rows (map snd (sort_key fst (zip (index f) [0..<length (index f)]))) f"

definition first_rows :: "timestamp list \<Rightarrow> nat list" where
  "first_rows idx = filter (\<lambda>i. idx ! i \<notin> set (take i idx)) [0..<length idx]"

definition last_rows :: "timestamp list \<Rightarrow> nat list" where
  "last_rows idx = filter (\<lambda>i. idx ! i \<notin> set (drop (Suc i) idx)) [0..<length idx]"

text \<open>\<^verbatim>\<open>self.df['TEMP'] = self.df.index\<close> and \<^verbatim>\<open>del self.df['TEMP']\<close>\<close>

definition set_column :: "string \<Rightarrow> 'a list \<Rightarrow> 'a frame \<Rightarrow> 'a frame" where
  "set_column name vals f =
     (if name \<in> set (columns f) then
        f\<lparr>cells := map2 (\<lambda>n col. if n = name then vals else col) (columns f) (cells f)\<rparr>
      else f\<lparr>columns := columns f @ [name], cells := cells f @ [vals]\<rparr>)"

definition del_column :: "string \<Rightarrow> 'a frame \<Rightarrow> 'a frame" where
  "del_column name f =
     f\<lparr>columns := filter (\<lambda>n. n \<noteq> name) (columns f),
       cells := map snd (filter (\<lambda>p. fst p \<noteq> name) (zip (columns f) (cells f)))\<rparr>"

text \<open>\<^verbatim>\<open>self.df.reindex(index=rng)\<close> of a table with unique labels.\<close>

definition reindex :: "timestamp list \<Rightarrow> cell frame \<Rightarrow> cell frame" where
  "reindex rng f =
     \<lparr>index = rng, columns = columns f,
      cells = map (\<lambda>col. map (\<lambda>t. case positions (index f) t of [] \<Rightarrow> None | i # _ \<Rightarrow> col ! i) rng)
                (cells f)\<rparr>"

text \<open>
  \<^verbatim>\<open>df_index.resample(freq).count() == 0\<close>: the bins start on the grid of the step
  counted from the midnight before the first timestamp, and a bin is flagged when no
  timestamp falls in it.
\<close>

definition empty_bins :: "timestamp list \<Rightarrow> int \<Rightarrow> bool frame" where
  "empty_bins idx step =
     (let first = fold min (tl idx) (hd idx);
          last = fold max (tl idx) (hd idx);
          labels = date_range (first - (first mod 86400000000000) mod step) last step
      in timestamp_mask labels (map (\<lambda>b. \<not> list_ex (\<lambda>t. b \<le> t \<and> t < b + step) idx) labels))"

text \<open>
  \<^verbatim>\<open>check_timestamp\<close>, with the frequency in whole seconds; a zero step makes
  \<^verbatim>\<open>pd.date_range\<close> divide by zero. The three parts run in order, each on the table
  the part before left.
\<close>

definition check_duplicates :: "pm \<Rightarrow> int \<Rightarrow> pm outcome" where
  "check_duplicates st min_failures =
     (let idx = index (df st);
          fmask = take_rows (last_rows idx) (timestamp_mask idx (diff_flags (\<lambda>d. d = 0) idx));
          st = st\<lparr>df := take_rows (first_rows idx)
                           (set_column ''TEMP'' (map (\<lambda>t. Some (of_int t)) idx) (df st))\<rparr>
      in case append_test_results st fmask ''Duplicate timestamp'' min_failures True of
           Raised e st \<Rightarrow> Raised e st
         | Returned st \<Rightarrow> Returned (st\<lparr>df := del_column ''TEMP'' (df st)\<rparr>))"

definition check_missing_timestamps :: "pm \<Rightarrow> timestamp list \<Rightarrow> int \<Rightarrow> int \<Rightarrow> bool \<Rightarrow> pm outcome" where
  "check_missing_timestamps st rng step min_failures exact_times =
     (if exact_times then
        append_test_results (st\<lparr>df := reindex rng (df st)\<rparr>)
          (timestamp_mask rng (map (\<lambda>t. t \<notin> set (index (df st))) rng))
          ''Missing timestamp'' min_failures True
      else append_test_results st (empty_bins (index (df st)) step)
             ''Missing timestamp'' min_failures True)"

definition check_timestamp ::
  "pm \<Rightarrow> nat \<Rightarrow> timestamp option \<Rightarrow> timestamp option \<Rightarrow> int \<Rightarrow> bool \<Rightarrow> pm outcome" where
  "check_timestamp st frequency expected_start_time expected_end_time min_failures exact_times =
     (let st = st\<lparr>logged := logged st @ [Info ''Check timestamp'']\<rparr> in
      if empty_frame (df st) then Returned (st\<lparr>logged := logged st @ [Info ''Empty database'']\<rparr>)
      else
        let idx = index (df st);
            start = (case expected_start_time of None \<Rightarrow> fold min (tl idx) (hd idx) | Some t \<Rightarrow> t);
            stop = (case expected_end_time of None \<Rightarrow> fold max (tl idx) (hd idx) | Some t \<Rightarrow> t);
            step = int frequency * 1000000000
        in if step = 0 then Raised ZeroDivisionError st
           else
             let rng = date_range start stop step in
             case append_test_results st (timestamp_mask idx (diff_flags (\<lambda>d. d < 0) idx))
                    ''Nonmonotonic timestamp'' min_failures True of
               Raised e st \<Rightarrow> Raised e st
             | Returned st \<Rightarrow>
                 (case check_duplicates
                         (if sorted (index (df st)) then st else st\<lparr>df := sort_index (df st)\<rparr>)
                         min_failures of
                    Raised e st \<Rightarrow> Raised e st
                  | Returned st \<Rightarrow> check_missing_timestamps st rng step min_failures exact_times))"

section \<open>Auxiliary functions for the proofs\<close>

text \<open>
  A scan of one row that carries the start of the run it is inside, if any; the proofs
  show that pairing the k-th start with the k-th stop computes the same list.
\<close>

fun start_marks :: "bool \<Rightarrow> bool list \<Rightarrow> bool list" where
  "start_marks p [] = []"
| "start_marks p (x # xs) = (\<not> p \<and> x) # start_marks x xs"

fun stop_marks :: "bool list \<Rightarrow> bool list" where
  "stop_marks [] = []"
| "stop_marks [x] = [x]"
| "stop_marks (x # y # ys) = (x \<and> \<not> y) # stop_marks (y # ys)"

fun where_from :: "nat \<Rightarrow> bool list \<Rightarrow> nat list" where
  "where_from k [] = []"
| "where_from k (b # bs) = (if b then k # where_from (Suc k) bs else where_from (Suc k) bs)"

fun scan_runs :: "nat option \<Rightarrow> nat \<Rightarrow> bool list \<Rightarrow> (nat \<times> nat) list" where
  "scan_runs None k [] = []"
| "scan_runs (Some s) k [] = [(s, k - 1)]"
| "scan_runs None k (x # xs) =
     (if x then scan_runs (Some k) (Suc k) xs else scan_runs None (Suc k) xs)"
| "scan_runs (Some s) k (x # xs) =
     (if x then scan_runs (Some s) (Suc k) xs else (s, k - 1) # scan_runs None (Suc k) xs)"

definition pending_stop :: "nat \<Rightarrow> bool list \<Rightarrow> nat list" where
  "pending_stop k xs = (case xs of [] \<Rightarrow> [k - 1] | x # _ \<Rightarrow> if x then [] else [k - 1])"

definition sum_len :: "(nat \<times> nat) list \<Rightarrow> int" where
  "sum_len rs = (\<Sum>(s, e)\<leftarrow>rs. int e - int s + 1)"

definition run_before :: "nat \<times> nat \<Rightarrow> nat \<times> nat \<Rightarrow> bool" where
  "run_before a b \<longleftrightarrow> snd a < fst b"

definition runs_within :: "nat \<Rightarrow> nat \<Rightarrow> (nat \<times> nat) list \<Rightarrow> bool" where
  "runs_within lo hi rs \<longleftrightarrow>
     sorted_wrt run_before rs \<and> (\<forall>(s, e)\<in>set rs. lo \<le> s \<and> s \<le> e \<and> e < hi)"

definition covered :: "(nat \<times> nat) list \<Rightarrow> nat \<Rightarrow> bool" where
  "covered rs i \<longleftrightarrow> (\<exists>(s, e)\<in>set rs. s \<le> i \<and> i \<le> e)"

text \<open>The runs of one row, and the blocks as a list of (start, stop) positions.\<close>

definition row_runs :: "bool list \<Rightarrow> (nat \<times> nat) list" where
  "row_runs xs = scan_runs None 0 xs"

definition block_pairs :: "block \<Rightarrow> ((nat \<times> nat) \<times> (nat \<times> nat)) list" where
  "block_pairs b = zip (zip (Start_Col b) (Start_Row b)) (zip (Stop_Col b) (Stop_Row b))"

definition tag_runs :: "bool list list \<Rightarrow> nat \<Rightarrow> ((nat \<times> nat) \<times> (nat \<times> nat)) list" where
  "tag_runs m c = map (\<lambda>(s, e). ((c, s), (c, e))) (row_runs (m ! c))"

definition block_before :: "(nat \<times> nat) \<times> (nat \<times> nat) \<Rightarrow> (nat \<times> nat) \<times> (nat \<times> nat) \<Rightarrow> bool" where
  "block_before a b \<longleftrightarrow> (fst (fst a) = fst (fst b) \<longrightarrow> snd (snd a) < snd (fst b))"

text \<open>What a call may do to the object: add rows to \<^verbatim>\<open>test_results\<close>, and nothing else to it.\<close>

definition appends_only :: "pm \<Rightarrow> pm \<Rightarrow> bool" where
  "appends_only st st' \<longleftrightarrow> (\<exists>new. test_results st' = test_results st @ new)"

section \<open>Block extraction finds the maximal runs\<close>

lemma start_nans_row_marks: "xs \<noteq> [] \<Longrightarrow> start_nans_row xs = start_marks False xs"
proof -
  have "map2 (\<lambda>a b. \<not> a \<and> b) (butlast (x # xs)) xs = start_marks x xs" for x xs
    by (induction xs arbitrary: x) auto
  then show "xs \<noteq> [] \<Longrightarrow> start_nans_row xs = start_marks False xs"
    by (cases xs) (auto simp: start_nans_row_def)
qed

lemma stop_nans_row_marks: "xs \<noteq> [] \<Longrightarrow> stop_nans_row xs = stop_marks xs"
proof -
  have "map2 (\<lambda>a b. a \<and> \<not> b) (butlast (x # xs)) xs @ [last (x # xs)] = stop_marks (x # xs)"
    for x xs
    by (induction xs arbitrary: x) auto
  then show "xs \<noteq> [] \<Longrightarrow> stop_nans_row xs = stop_marks xs"
    by (cases xs) (auto simp: stop_nans_row_def)
qed

lemma where_from_Suc: "where_from (Suc k) bs = map Suc (where_from k bs)"
  by (induction bs arbitrary: k) auto

lemma where1_where_from: "where1 bs = where_from 0 bs"
proof (induction bs)
  case Nil
  then show ?case by (simp add: where1_def)
next
  case (Cons b bs)
  have "[0..<length (b # bs)] = 0 # map Suc [0..<length bs]"
    by (simp add: upt_conv_Cons map_Suc_upt del: upt_Suc)
  then have "where1 (b # bs) = (if b then [0] else []) @ map Suc (where1 bs)"
    by (simp add: where1_def filter_map comp_def del: upt_Suc)
  with Cons show ?case by (simp add: where_from_Suc[of 0])
qed

lemma zip_marks_scan:
  "zip (where_from k (start_marks False xs)) (where_from k (stop_marks xs)) = scan_runs None k xs \<and>
   length (where_from k (start_marks False xs)) = length (where_from k (stop_marks xs)) \<and>
   zip (s # where_from k (start_marks True xs)) (pending_stop k xs @ where_from k (stop_marks xs))
     = scan_runs (Some s) k xs \<and>
   Suc (length (where_from k (start_marks True xs)))
     = length (pending_stop k xs @ where_from k (stop_marks xs))"
proof (induction xs arbitrary: k s)
  case Nil
  show ?case by (simp add: pending_stop_def)
next
  case (Cons x xs)
  show ?case
  proof (cases xs)
    case Nil
    then show ?thesis by (simp add: pending_stop_def)
  next
    case (Cons y ys)
    from Cons.IH[of "Suc k" s] Cons.IH[of "Suc k" k] Cons show ?thesis
      by (simp add: pending_stop_def split: if_splits)
  qed
qed

lemma runs_within_mono: "runs_within lo hi rs \<Longrightarrow> lo' \<le> lo \<Longrightarrow> runs_within lo' hi rs"
  by (fastforce simp: runs_within_def)

lemma scan_runs_within:
  "runs_within k (k + length xs) (scan_runs None k xs) \<and>
   (s < k \<longrightarrow> (\<exists>e rest. scan_runs (Some s) k xs = (s, e) # rest \<and> k \<le> Suc e \<and>
        e < k + length xs \<and> runs_within (e + 2) (k + length xs) rest))"
proof (induction xs arbitrary: k s)
  case Nil
  show ?case by (auto simp: runs_within_def)
next
  case (Cons x xs)
  have IHN: "runs_within (Suc k) (Suc k + length xs) (scan_runs None (Suc k) xs)"
    using Cons.IH by blast
  have IHS: "s' < Suc k \<Longrightarrow> \<exists>e rest. scan_runs (Some s') (Suc k) xs = (s', e) # rest \<and>
        Suc k \<le> Suc e \<and> e < Suc k + length xs \<and> runs_within (e + 2) (Suc k + length xs) rest"
    for s' using Cons.IH by blast
  show ?case
  proof (cases x)
    case True
    from IHS[of k] obtain e rest where 1: "scan_runs (Some k) (Suc k) xs = (k, e) # rest"
        "k \<le> e" "e < Suc k + length xs" "runs_within (e + 2) (Suc k + length xs) rest"
      by auto
    have A: "runs_within k (k + length (x # xs)) (scan_runs None k (x # xs))"
      using True 1 by (fastforce simp: runs_within_def run_before_def)
    have B: "s < k \<Longrightarrow> \<exists>e rest. scan_runs (Some s) k (x # xs) = (s, e) # rest \<and> k \<le> Suc e \<and>
        e < k + length (x # xs) \<and> runs_within (e + 2) (k + length (x # xs)) rest"
      using True IHS[of s] by auto
    from A B show ?thesis by blast
  next
    case False
    have A: "runs_within k (k + length (x # xs)) (scan_runs None k (x # xs))"
      using False runs_within_mono[OF IHN, of k] by simp
    have B: "s < k \<Longrightarrow> \<exists>e rest. scan_runs (Some s) k (x # xs) = (s, e) # rest \<and> k \<le> Suc e \<and>
        e < k + length (x # xs) \<and> runs_within (e + 2) (k + length (x # xs)) rest"
      using False runs_within_mono[OF IHN, of "Suc k"] by auto
    from A B show ?thesis by blast
  qed
qed

lemma scan_runs_sum:
  "sum_len (scan_runs None k xs) = int (length (filter id xs)) \<and>
   (s < k \<longrightarrow> sum_len (scan_runs (Some s) k xs) = int k - int s + int (length (filter id xs)))"
  by (induction xs arbitrary: k s) (auto simp: sum_len_def)

lemma scan_runs_cover:
  "(\<forall>i. k \<le> i \<and> i < k + length xs \<longrightarrow> (xs ! (i - k) \<longleftrightarrow> covered (scan_runs None k xs) i)) \<and>
   (s < k \<longrightarrow> (\<forall>i. k \<le> i \<and> i < k + length xs \<longrightarrow>
       (xs ! (i - k) \<longleftrightarrow> covered (scan_runs (Some s) k xs) i)))"
proof (induction xs arbitrary: k s)
  case Nil
  show ?case by auto
next
  case (Cons x xs)
  have IHN: "Suc k \<le> i \<Longrightarrow> i < Suc k + length xs \<Longrightarrow>
      xs ! (i - Suc k) \<longleftrightarrow> covered (scan_runs None (Suc k) xs) i" for i
    using Cons.IH by blast
  have IHS: "s' < Suc k \<Longrightarrow> Suc k \<le> i \<Longrightarrow> i < Suc k + length xs \<Longrightarrow>
      xs ! (i - Suc k) \<longleftrightarrow> covered (scan_runs (Some s') (Suc k) xs) i" for i s'
    using Cons.IH by blast
  have GN: "runs_within (Suc k) (Suc k + length xs) (scan_runs None (Suc k) xs)"
    using scan_runs_within by blast
  have notk: "\<not> covered (scan_runs None (Suc k) xs) k"
    using GN by (fastforce simp: runs_within_def covered_def)
  have GS: "s' < Suc k \<Longrightarrow> covered (scan_runs (Some s') (Suc k) xs) k" for s'
    using scan_runs_within[of "Suc k" xs s'] by (fastforce simp: covered_def)
  have nth: "Suc k \<le> i \<Longrightarrow> (x # xs) ! (i - k) = xs ! (i - Suc k)" for i
    by (simp add: Suc_diff_le)
  have A: "k \<le> i \<Longrightarrow> i < k + length (x # xs) \<Longrightarrow>
      (x # xs) ! (i - k) \<longleftrightarrow> covered (scan_runs None k (x # xs)) i" for i
  proof (cases "i = k")
    case True
    then show ?thesis using notk GS[of k] by simp
  next
    case False
    assume "k \<le> i" "i < k + length (x # xs)"
    with False have "Suc k \<le> i" "i < Suc k + length xs" by simp_all
    then show ?thesis using IHN[of i] IHS[of k i] nth[of i] by simp
  qed
  have B: "s < k \<Longrightarrow> k \<le> i \<Longrightarrow> i < k + length (x # xs) \<Longrightarrow>
      (x # xs) ! (i - k) \<longleftrightarrow> covered (scan_runs (Some s) k (x # xs)) i" for i
  proof (cases "i = k")
    case True
    assume "s < k"
    then show ?thesis using True notk GS[of s] by (auto simp: covered_def)
  next
    case False
    assume "s < k" "k \<le> i" "i < k + length (x # xs)"
    with False have *: "Suc k \<le> i" "i < Suc k + length xs" by simp_all
    then show ?thesis using IHN[of i] IHS[of s i] nth[of i] \<open>s < k\<close>
      by (auto simp: covered_def)
  qed
  from A B show ?case by blast
qed

lemma length_start_nans_row: "xs \<noteq> [] \<Longrightarrow> length (start_nans_row xs) = length xs"
  by (cases xs) (simp_all add: start_nans_row_def)

lemma length_stop_nans_row: "xs \<noteq> [] \<Longrightarrow> length (stop_nans_row xs) = length xs"
  by (cases xs) (simp_all add: stop_nans_row_def)

lemma nth_start_nans_row:
  assumes "i < length xs"
  shows "start_nans_row xs ! i \<longleftrightarrow> xs ! i \<and> (i = 0 \<or> \<not> xs ! (i - 1))"
proof (cases i)
  case 0
  with assms show ?thesis by (cases xs) (simp_all add: start_nans_row_def)
next
  case (Suc j)
  with assms have "j < length (butlast xs)" "j < length (tl xs)" by simp_all
  with Suc assms show ?thesis
    by (auto simp: start_nans_row_def nth_butlast nth_tl)
qed

lemma nth_stop_nans_row:
  assumes "j < length xs"
  shows "stop_nans_row xs ! j \<longleftrightarrow> xs ! j \<and> (j = length xs - 1 \<or> \<not> xs ! (j + 1))"
proof (cases "j = length xs - 1")
  case True
  with assms have "xs \<noteq> []" by auto
  with True show ?thesis
    by (simp add: stop_nans_row_def nth_append last_conv_nth)
next
  case False
  with assms have "j < length (butlast xs)" "j < length (tl xs)" by simp_all
  with False show ?thesis
    by (auto simp: stop_nans_row_def nth_append nth_butlast nth_tl)
qed

lemma set_where1: "set (where1 bs) = {i. i < length bs \<and> bs ! i}"
  by (auto simp: where1_def)

lemma set_row_starts:
  "xs \<noteq> [] \<Longrightarrow> set (where1 (start_nans_row xs)) =
     {i. i < length xs \<and> xs ! i \<and> (i = 0 \<or> \<not> xs ! (i - 1))}"
  by (auto simp: set_where1 length_start_nans_row nth_start_nans_row)

lemma set_row_stops:
  "xs \<noteq> [] \<Longrightarrow> set (where1 (stop_nans_row xs)) =
     {j. j < length xs \<and> xs ! j \<and> (j = length xs - 1 \<or> \<not> xs ! (j + 1))}"
  by (auto simp: set_where1 length_stop_nans_row nth_stop_nans_row)

lemma row_zip:
  assumes "xs \<noteq> []"
  shows "zip (where1 (start_nans_row xs)) (where1 (stop_nans_row xs)) = row_runs xs"
    and "length (where1 (start_nans_row xs)) = length (where1 (stop_nans_row xs))"
  using assms zip_marks_scan[of 0 xs]
  by (simp_all add: where1_where_from start_nans_row_marks stop_nans_row_marks row_runs_def)

lemma row_runs_within: "runs_within 0 (length xs) (row_runs xs)"
  using scan_runs_within[of 0 xs] by (simp add: row_runs_def)

lemma row_runs_cover: "i < length xs \<Longrightarrow> xs ! i \<longleftrightarrow> covered (row_runs xs) i"
  using scan_runs_cover[of 0 xs] by (simp add: row_runs_def)

lemma row_runs_sum: "sum_len (row_runs xs) = int (length (filter id xs))"
  using scan_runs_sum[of 0 xs] by (simp add: row_runs_def)

lemma zip_concat_map:
  "(\<forall>r\<in>set rs. length (f r) = length (g r)) \<Longrightarrow>
     zip (concat (map f rs)) (concat (map g rs)) = concat (map (\<lambda>r. zip (f r) (g r)) rs) \<and>
     length (concat (map f rs)) = length (concat (map g rs))"
  by (induction rs) auto

lemma zip_map_Pair: "zip (map (Pair r) xs) (map (Pair r) ys) = map (\<lambda>(s, e). ((r, s), (r, e))) (zip xs ys)"
  by (induction xs arbitrary: ys) (auto simp: zip_Cons1 split: list.splits)

lemma np_where_zip:
  assumes "\<forall>row\<in>set m. row \<noteq> []"
  shows "zip (np_where (map start_nans_row m)) (np_where (map stop_nans_row m))
           = concat (map (tag_runs m) [0..<length m])"
    and "length (np_where (map start_nans_row m)) = length (np_where (map stop_nans_row m))"
proof -
  let ?f = "\<lambda>r. map (Pair r) (where1 (map start_nans_row m ! r))"
  let ?g = "\<lambda>r. map (Pair r) (where1 (map stop_nans_row m ! r))"
  have ne: "r < length m \<Longrightarrow> m ! r \<noteq> []" for r using assms by simp
  have len: "\<forall>r\<in>set [0..<length m]. length (?f r) = length (?g r)"
    using ne by (simp add: row_zip(2))
  have "\<forall>r\<in>set [0..<length m]. zip (?f r) (?g r) = tag_runs m r"
    using ne by (simp add: zip_map_Pair row_zip(1) tag_runs_def)
  then have "map (\<lambda>r. zip (?f r) (?g r)) [0..<length m] = map (tag_runs m) [0..<length m]"
    by (intro map_cong) auto
  with zip_concat_map[OF len]
  show "zip (np_where (map start_nans_row m)) (np_where (map stop_nans_row m))
           = concat (map (tag_runs m) [0..<length m])"
    and "length (np_where (map start_nans_row m)) = length (np_where (map stop_nans_row m))"
    by (simp_all add: np_where_def)
qed

lemma set_np_where: "set (np_where m) = {(r, i). r < length m \<and> i < length (m ! r) \<and> m ! r ! i}"
  by (auto simp: np_where_def set_where1)

lemma set_tagged:
  "set (concat (map (tag_runs m) [0..<length m]))
     = {((c, s), (c', e)). c < length m \<and> c' = c \<and> (s, e) \<in> set (row_runs (m ! c))}"
  by (auto simp: tag_runs_def)

lemma sorted_wrt_concat_map:
  assumes "\<forall>r\<in>set rs. sorted_wrt P (f r)"
    and "\<forall>r\<in>set rs. \<forall>r'\<in>set rs. r \<noteq> r' \<longrightarrow> (\<forall>x\<in>set (f r). \<forall>y\<in>set (f r'). P x y)"
    and "distinct rs"
  shows "sorted_wrt P (concat (map f rs))"
  using assms
proof (induction rs)
  case Nil
  then show ?case by simp
next
  case (Cons r rs)
  then have "sorted_wrt P (concat (map f rs))" by simp
  moreover have "\<forall>x\<in>set (f r). \<forall>y\<in>set (concat (map f rs)). P x y"
    using Cons.prems by auto
  ultimately show ?case using Cons.prems(1) by (simp add: sorted_wrt_append)
qed

lemma sorted_tagged: "sorted_wrt block_before (concat (map (tag_runs m) [0..<length m]))"
proof (rule sorted_wrt_concat_map)
  show "\<forall>r\<in>set [0..<length m]. sorted_wrt block_before (tag_runs m r)"
  proof
    fix r
    have "sorted_wrt run_before (row_runs (m ! r))"
      using row_runs_within[of "m ! r"] by (simp add: runs_within_def)
    then show "sorted_wrt block_before (tag_runs m r)"
      by (simp add: tag_runs_def sorted_wrt_map block_before_def run_before_def[abs_def] case_prod_unfold)
  qed
  show "\<forall>r\<in>set [0..<length m]. \<forall>r'\<in>set [0..<length m]. r \<noteq> r' \<longrightarrow>
          (\<forall>x\<in>set (tag_runs m r). \<forall>y\<in>set (tag_runs m r'). block_before x y)"
    by (auto simp: tag_runs_def block_before_def)
  show "distinct [0..<length m]" by simp
qed

lemma sum_list_concat_map:
  "(\<Sum>x\<leftarrow>concat (map f rs). (g x :: int)) = (\<Sum>r\<leftarrow>rs. \<Sum>x\<leftarrow>f r. g x)"
  by (induction rs) auto

lemma sum_tagged:
  "(\<Sum>p\<leftarrow>concat (map (tag_runs m) [0..<length m]). int (snd (snd p)) - int (snd (fst p)) + 1)
     = int (\<Sum>row\<leftarrow>m. length (filter id row))"
proof -
  have 1: "(\<Sum>p\<leftarrow>tag_runs m c. int (snd (snd p)) - int (snd (fst p)) + 1) = sum_len (row_runs (m ! c))"
    for c
    by (simp add: tag_runs_def sum_len_def comp_def case_prod_unfold)
  have "(\<Sum>p\<leftarrow>concat (map (tag_runs m) [0..<length m]). int (snd (snd p)) - int (snd (fst p)) + 1)
      = (\<Sum>c\<leftarrow>[0..<length m]. int (length (filter id (m ! c))))"
    by (simp add: sum_list_concat_map 1 row_runs_sum)
  also have "\<dots> = (\<Sum>row\<leftarrow>map ((!) m) [0..<length m]. int (length (filter id row)))"
    by (simp add: comp_def)
  also have "\<dots> = (\<Sum>row\<leftarrow>m. int (length (filter id row)))"
    by (simp add: map_nth)
  also have "\<dots> = int (\<Sum>row\<leftarrow>m. length (filter id row))"
    by (induction m) auto
  finally show ?thesis .
qed

lemma block_pairs_find_blocks:
  assumes "\<forall>row\<in>set m. row \<noteq> []"
  shows "\<exists>b. find_blocks m = Inr b \<and>
     Start_Row b = map snd (np_where (map start_nans_row m)) \<and>
     Start_Col b = map fst (np_where (map start_nans_row m)) \<and>
     Stop_Row b = map snd (np_where (map stop_nans_row m)) \<and>
     Stop_Col b = map fst (np_where (map stop_nans_row m)) \<and>
     length (Stop_Row b) = length (Start_Row b) \<and>
     block_pairs b = concat (map (tag_runs m) [0..<length m])"
  using assms np_where_zip[OF assms]
  by (simp add: find_blocks_def list_ex_iff Let_def block_pairs_def zip_map_fst_snd)

lemma in_zip_snd_fst: "(i, c) \<in> set (zip (map snd xs) (map fst xs)) \<longleftrightarrow> (c, i) \<in> set xs"
  by (induction xs) auto

lemma in_np_where: "(r, i) \<in> set (np_where m) \<longleftrightarrow> r < length m \<and> i < length (m ! r) \<and> m ! r ! i"
  by (simp add: set_np_where)

lemma in_starts:
  assumes "\<forall>row\<in>set m. length row = n" "0 < n"
  shows "(c, i) \<in> set (np_where (map start_nans_row m)) \<longleftrightarrow>
     c < length m \<and> i < n \<and> m ! c ! i \<and> (i = 0 \<or> \<not> m ! c ! (i - 1))"
proof (cases "c < length m")
  case True
  with assms have "length (m ! c) = n" by simp
  with assms have "length (m ! c) = n" "m ! c \<noteq> []" by auto
  with True show ?thesis
    using nth_start_nans_row[of i "m ! c"] by (auto simp: in_np_where length_start_nans_row)
next
  case False
  then show ?thesis by (simp add: in_np_where)
qed

lemma in_stops:
  assumes "\<forall>row\<in>set m. length row = n" "0 < n"
  shows "(c, j) \<in> set (np_where (map stop_nans_row m)) \<longleftrightarrow>
     c < length m \<and> j < n \<and> m ! c ! j \<and> (j = n - 1 \<or> \<not> m ! c ! (j + 1))"
proof (cases "c < length m")
  case True
  with assms have "length (m ! c) = n" by simp
  with assms have "length (m ! c) = n" "m ! c \<noteq> []" by auto
  with True show ?thesis
    using nth_stop_nans_row[of j "m ! c"] by (auto simp: in_np_where length_stop_nans_row)
next
  case False
  then show ?thesis by (simp add: in_np_where)
qed

lemma find_blocks_bounds:
  assumes "\<forall>row\<in>set m. length row = n" and "0 < n"
  shows "\<exists>b. find_blocks m = Inr b \<and>
     length (Start_Col b) = length (Start_Row b) \<and>
     length (Stop_Row b) = length (Start_Row b) \<and>
     length (Stop_Col b) = length (Start_Row b) \<and>
     (\<forall>k<length (Start_Row b). Start_Col b ! k < length m \<and> Stop_Col b ! k = Start_Col b ! k \<and>
        Start_Row b ! k \<le> Stop_Row b ! k \<and> Stop_Row b ! k < n)"
proof -
  have ne: "\<forall>row\<in>set m. row \<noteq> []" using assms by auto
  from block_pairs_find_blocks[OF ne] obtain b where b: "find_blocks m = Inr b"
    and sr: "Start_Row b = map snd (np_where (map start_nans_row m))"
    and sc: "Start_Col b = map fst (np_where (map start_nans_row m))"
    and er: "Stop_Row b = map snd (np_where (map stop_nans_row m))"
    and ec: "Stop_Col b = map fst (np_where (map stop_nans_row m))"
    and l1: "length (Stop_Row b) = length (Start_Row b)"
    and bp: "block_pairs b = concat (map (tag_runs m) [0..<length m])"
    by blast
  let ?N = "length (Start_Row b)"
  have l2: "length (Start_Col b) = ?N" and l3: "length (Stop_Col b) = ?N"
    using l1 by (simp_all add: sr sc er ec)
  have nthp: "k < ?N \<Longrightarrow> block_pairs b ! k
      = ((Start_Col b ! k, Start_Row b ! k), (Stop_Col b ! k, Stop_Row b ! k))" for k
    using l1 l2 l3 by (simp add: block_pairs_def)
  have lenp: "length (block_pairs b) = ?N"
    using l1 l2 l3 by (simp add: block_pairs_def)
  have "Start_Col b ! k < length m \<and> Stop_Col b ! k = Start_Col b ! k \<and>
        Start_Row b ! k \<le> Stop_Row b ! k \<and> Stop_Row b ! k < n" if k: "k < ?N" for k
  proof -
    from k have "block_pairs b ! k \<in> set (block_pairs b)" using lenp by simp
    then have "((Start_Col b ! k, Start_Row b ! k), (Stop_Col b ! k, Stop_Row b ! k))
        \<in> set (concat (map (tag_runs m) [0..<length m]))"
      using nthp[OF k] bp by metis
    then have c: "Start_Col b ! k < length m" "Stop_Col b ! k = Start_Col b ! k"
      and r: "(Start_Row b ! k, Stop_Row b ! k) \<in> set (row_runs (m ! (Start_Col b ! k)))"
      unfolding set_tagged by simp_all
    from c(1) assms(1) have "length (m ! (Start_Col b ! k)) = n" by simp
    with r row_runs_within[of "m ! (Start_Col b ! k)"]
    have "Start_Row b ! k \<le> Stop_Row b ! k" "Stop_Row b ! k < n"
      by (auto simp: runs_within_def)
    with c show ?thesis by simp
  qed
  with b l1 l2 l3 show ?thesis by blast
qed

lemma find_blocks_runs:
  assumes "\<forall>row\<in>set np_mask. length row = n" and "0 < n"
  shows "\<exists>b. find_blocks np_mask = Inr b \<and>
     length (Start_Col b) = length (Start_Row b) \<and>
     length (Stop_Row b) = length (Start_Row b) \<and>
     length (Stop_Col b) = length (Start_Row b) \<and>
     (\<forall>c i. (i, c) \<in> set (zip (Start_Row b) (Start_Col b)) \<longleftrightarrow>
        c < length np_mask \<and> i < n \<and> np_mask ! c ! i \<and> (i = 0 \<or> \<not> np_mask ! c ! (i - 1))) \<and>
     (\<forall>c j. (j, c) \<in> set (zip (Stop_Row b) (Stop_Col b)) \<longleftrightarrow>
        c < length np_mask \<and> j < n \<and> np_mask ! c ! j \<and> (j = n - 1 \<or> \<not> np_mask ! c ! (j + 1))) \<and>
     (\<forall>k<length (Start_Row b). Stop_Col b ! k = Start_Col b ! k \<and>
        Start_Row b ! k \<le> Stop_Row b ! k \<and>
        (\<forall>i. Start_Row b ! k \<le> i \<and> i \<le> Stop_Row b ! k \<longrightarrow> np_mask ! (Start_Col b ! k) ! i)) \<and>
     (\<forall>k l. k < l \<and> l < length (Start_Row b) \<and> Start_Col b ! k = Start_Col b ! l \<longrightarrow>
        Stop_Row b ! k < Start_Row b ! l) \<and>
     (\<forall>c i. c < length np_mask \<and> i < n \<and> np_mask ! c ! i \<longrightarrow>
        (\<exists>k<length (Start_Row b). Start_Col b ! k = c \<and> Start_Row b ! k \<le> i \<and> i \<le> Stop_Row b ! k)) \<and>
     (\<Sum>k<length (Start_Row b). int (Stop_Row b ! k) - int (Start_Row b ! k) + 1)
        = int (\<Sum>row\<leftarrow>np_mask. length (filter id row))"
proof -
  have ne: "\<forall>row\<in>set np_mask. row \<noteq> []" using assms by auto
  have len: "c < length np_mask \<Longrightarrow> length (np_mask ! c) = n" for c using assms(1) by simp
  from block_pairs_find_blocks[OF ne] obtain b where b: "find_blocks np_mask = Inr b"
    and sr: "Start_Row b = map snd (np_where (map start_nans_row np_mask))"
    and sc: "Start_Col b = map fst (np_where (map start_nans_row np_mask))"
    and er: "Stop_Row b = map snd (np_where (map stop_nans_row np_mask))"
    and ec: "Stop_Col b = map fst (np_where (map stop_nans_row np_mask))"
    and l1: "length (Stop_Row b) = length (Start_Row b)"
    and bp: "block_pairs b = concat (map (tag_runs np_mask) [0..<length np_mask])"
    by blast
  let ?N = "length (Start_Row b)"
  have l2: "length (Start_Col b) = ?N" and l3: "length (Stop_Col b) = ?N"
    using l1 by (simp_all add: sr sc er ec)
  have nthp: "k < ?N \<Longrightarrow> block_pairs b ! k
      = ((Start_Col b ! k, Start_Row b ! k), (Stop_Col b ! k, Stop_Row b ! k))" for k
    using l1 l2 l3 by (simp add: block_pairs_def)
  have lenp: "length (block_pairs b) = ?N"
    using l1 l2 l3 by (simp add: block_pairs_def)
  have mem: "k < ?N \<Longrightarrow> Start_Col b ! k < length np_mask \<and> Stop_Col b ! k = Start_Col b ! k \<and>
      (Start_Row b ! k, Stop_Row b ! k) \<in> set (row_runs (np_mask ! (Start_Col b ! k)))" for k
  proof -
    assume k: "k < ?N"
    then have "block_pairs b ! k \<in> set (block_pairs b)" using lenp by simp
    then have "((Start_Col b ! k, Start_Row b ! k), (Stop_Col b ! k, Stop_Row b ! k))
        \<in> set (concat (map (tag_runs np_mask) [0..<length np_mask]))"
      using nthp[OF k] bp by metis
    then show ?thesis unfolding set_tagged by simp
  qed
  have starts: "\<forall>c i. (i, c) \<in> set (zip (Start_Row b) (Start_Col b)) \<longleftrightarrow>
        c < length np_mask \<and> i < n \<and> np_mask ! c ! i \<and> (i = 0 \<or> \<not> np_mask ! c ! (i - 1))"
    using in_starts[OF assms] by (simp add: sr sc in_zip_snd_fst)
  have stops: "\<forall>c j. (j, c) \<in> set (zip (Stop_Row b) (Stop_Col b)) \<longleftrightarrow>
        c < length np_mask \<and> j < n \<and> np_mask ! c ! j \<and> (j = n - 1 \<or> \<not> np_mask ! c ! (j + 1))"
    using in_stops[OF assms] by (simp add: er ec in_zip_snd_fst)
  have blocks: "\<forall>k<?N. Stop_Col b ! k = Start_Col b ! k \<and> Start_Row b ! k \<le> Stop_Row b ! k \<and>
        (\<forall>i. Start_Row b ! k \<le> i \<and> i \<le> Stop_Row b ! k \<longrightarrow> np_mask ! (Start_Col b ! k) ! i)"
  proof (intro allI impI)
    fix k assume k: "k < ?N"
    let ?c = "Start_Col b ! k" and ?s = "Start_Row b ! k" and ?e = "Stop_Row b ! k"
    from mem[OF k] have c: "?c < length np_mask" "Stop_Col b ! k = ?c"
      and r: "(?s, ?e) \<in> set (row_runs (np_mask ! ?c))" by simp_all
    from r row_runs_within[of "np_mask ! ?c"] have se: "?s \<le> ?e" "?e < length (np_mask ! ?c)"
      by (auto simp: runs_within_def)
    have "np_mask ! ?c ! i" if "?s \<le> i \<and> i \<le> ?e" for i
    proof -
      from that r have "covered (row_runs (np_mask ! ?c)) i" by (auto simp: covered_def)
      moreover from that se have "i < length (np_mask ! ?c)" by simp
      ultimately show ?thesis using row_runs_cover by blast
    qed
    with c se show "Stop_Col b ! k = ?c \<and> ?s \<le> ?e \<and> (\<forall>i. ?s \<le> i \<and> i \<le> ?e \<longrightarrow> np_mask ! ?c ! i)"
      by blast
  qed
  have apart: "\<forall>k l. k < l \<and> l < ?N \<and> Start_Col b ! k = Start_Col b ! l \<longrightarrow>
        Stop_Row b ! k < Start_Row b ! l"
  proof (intro allI impI)
    fix k l assume kl: "k < l \<and> l < ?N \<and> Start_Col b ! k = Start_Col b ! l"
    have "sorted_wrt block_before (block_pairs b)" using sorted_tagged by (simp add: bp)
    with kl lenp have "block_before (block_pairs b ! k) (block_pairs b ! l)"
      by (simp add: sorted_wrt_iff_nth_less)
    with kl show "Stop_Row b ! k < Start_Row b ! l"
      by (simp add: nthp block_before_def)
  qed
  have complete: "\<forall>c i. c < length np_mask \<and> i < n \<and> np_mask ! c ! i \<longrightarrow>
        (\<exists>k<?N. Start_Col b ! k = c \<and> Start_Row b ! k \<le> i \<and> i \<le> Stop_Row b ! k)"
  proof (intro allI impI)
    fix c i assume ci: "c < length np_mask \<and> i < n \<and> np_mask ! c ! i"
    then have "covered (row_runs (np_mask ! c)) i" using row_runs_cover[of i "np_mask ! c"] len by simp
    then obtain s e where se: "(s, e) \<in> set (row_runs (np_mask ! c))" "s \<le> i" "i \<le> e"
      by (auto simp: covered_def)
    with ci have "((c, s), (c, e)) \<in> set (block_pairs b)" unfolding bp set_tagged by simp
    then obtain k where k: "k < ?N" "block_pairs b ! k = ((c, s), (c, e))"
      using lenp by (auto simp: in_set_conv_nth)
    with se show "\<exists>k<?N. Start_Col b ! k = c \<and> Start_Row b ! k \<le> i \<and> i \<le> Stop_Row b ! k"
      by (auto simp: nthp)
  qed
  have total: "(\<Sum>k<?N. int (Stop_Row b ! k) - int (Start_Row b ! k) + 1)
        = int (\<Sum>row\<leftarrow>np_mask. length (filter id row))"
  proof -
    have "(\<Sum>k<?N. int (Stop_Row b ! k) - int (Start_Row b ! k) + 1)
        = (\<Sum>k<?N. int (snd (snd (block_pairs b ! k))) - int (snd (fst (block_pairs b ! k))) + 1)"
      by (simp add: nthp)
    also have "\<dots> = (\<Sum>p\<leftarrow>block_pairs b. int (snd (snd p)) - int (snd (fst p)) + 1)"
      using lenp by (simp add: sum_list_sum_nth atLeast0LessThan)
    finally show ?thesis by (simp add: bp sum_tagged)
  qed
  from b l1 l2 l3 starts stops blocks apart complete total show ?thesis by blast
qed

section \<open>Recording keeps the runs that are long enough\<close>

lemma record_blocks_filter:
  assumes "\<forall>i\<in>set is. i < length (Stop_Row b) \<and> i < length (Start_Row b) \<and>
      (use_mask_only \<or> Start_Col b ! i < length names) \<and>
      Start_Row b ! i < length idx \<and> Stop_Row b ! i < length idx"
  shows "record_blocks st idx names use_mask_only msg k b is =
     Returned (st\<lparr>test_results := test_results st @
        map (block_result idx names use_mask_only msg b) (filter (\<lambda>i. k \<le> block_length b i) is)\<rparr>)"
  using assms
proof (induction "is" arbitrary: st)
  case Nil
  show ?case by simp
next
  case (Cons i rest)
  from Cons.prems have rest: "\<forall>i\<in>set rest. i < length (Stop_Row b) \<and> i < length (Start_Row b) \<and>
      (use_mask_only \<or> Start_Col b ! i < length names) \<and>
      Start_Row b ! i < length idx \<and> Stop_Row b ! i < length idx" by simp
  from Cons.prems have i: "i < length (Stop_Row b)" "i < length (Start_Row b)"
      "use_mask_only \<or> Start_Col b ! i < length names"
      "Start_Row b ! i < length idx" "Stop_Row b ! i < length idx" by simp_all
  show ?case
  proof (cases "k \<le> block_length b i")
    case True
    with i show ?thesis
      by (auto simp: Cons.IH[OF rest])
  next
    case False
    with i show ?thesis by (simp add: Cons.IH[OF rest])
  qed
qed

lemma wf_clear_rows:
  "wf_frame fmask \<Longrightarrow> length keep = length (index fmask) \<Longrightarrow> wf_frame (clear_rows keep fmask)"
  by (simp add: wf_frame_def clear_rows_def)

lemma apply_tfilter_aligned:
  assumes "wf_frame fmask" and "tf = [] \<or> map fst tf = index fmask"
  shows "\<exists>fm. apply_tfilter tf fmask = Inr fm \<and> wf_frame fm \<and> index fm = index fmask \<and>
     columns fm = columns fmask"
proof (cases "tf = []")
  case True
  with assms show ?thesis by (simp add: apply_tfilter_def)
next
  case False
  with assms have eq: "map fst tf = index fmask" by simp
  then have len: "length tf = length (index fmask)" by (metis length_map)
  from False eq len have "apply_tfilter tf fmask = Inr (clear_rows (map snd tf) fmask)"
    by (simp add: apply_tfilter_def align_tfilter_def)
  moreover have "wf_frame (clear_rows (map snd tf) fmask)"
    using assms(1) len by (simp add: wf_clear_rows)
  ultimately show ?thesis by (simp add: clear_rows_def)
qed

lemma filter_eq_distinct: "distinct cs \<Longrightarrow> n \<in> set cs \<Longrightarrow> filter (\<lambda>c. c = n) cs = [n]"
  by (induction cs) (auto simp: filter_empty_conv)

lemma select_columns_axes:
  assumes "distinct (columns f)" and "set names \<subseteq> set (columns f)"
  shows "\<exists>sub. select_columns f names = Inr sub \<and> index sub = index f \<and> columns sub = names"
proof -
  have "concat (map (\<lambda>n. filter (\<lambda>c. c = n) (columns f)) names) = names"
    using assms(2)
  proof (induction names)
    case Nil
    show ?case by simp
  next
    case (Cons n names)
    then show ?case using filter_eq_distinct[OF assms(1), of n] by simp
  qed
  moreover have "\<not> list_ex (\<lambda>n. n \<notin> set (columns f)) names"
    using assms(2) by (auto simp: list_ex_iff)
  ultimately show ?thesis by (simp add: select_columns_def)
qed

lemma count_true_rows:
  assumes "wf_frame fm" and "0 < count_true fm"
  shows "0 < length (index fm)"
proof -
  have "(\<Sum>col\<leftarrow>cs. length (filter id col)) = 0" if "\<forall>col\<in>set cs. filter id col = []"
    for cs :: "bool list list"
    using that by (induction cs) auto
  with assms(2) obtain col where col: "col \<in> set (cells fm)" "filter id col \<noteq> []"
    unfolding count_true_def by fastforce
  then have "col \<noteq> []" by auto
  with col(1) assms(1) show ?thesis by (auto simp: wf_frame_def)
qed

lemma append_test_results_recorded:
  assumes wf: "wf_frame fmask"
    and tf: "tfilter st = [] \<or> map fst (tfilter st) = index fmask"
    and sub: "use_mask_only \<or> (index (df st) = index fmask \<and> distinct (columns (df st)) \<and>
                set (columns fmask) \<subseteq> set (columns (df st)))"
  shows "\<exists>fm. apply_tfilter (tfilter st) fmask = Inr fm \<and> wf_frame fm \<and>
      index fm = index fmask \<and> columns fm = columns fmask \<and>
      ((count_true fm = 0 \<and> append_test_results st fmask msg k use_mask_only = Returned st) \<or>
       (0 < count_true fm \<and> 0 < length (index fmask) \<and>
        (\<exists>b. find_blocks (cells fm) = Inr b \<and>
           append_test_results st fmask msg k use_mask_only =
             Returned (st\<lparr>test_results := test_results st @
               map (block_result (index fmask) (columns fmask) use_mask_only msg b)
                 (filter (\<lambda>i. k \<le> block_length b i) [0..<length (Start_Col b)])\<rparr>))))"
proof -
  from apply_tfilter_aligned[OF wf tf] obtain fm where fm: "apply_tfilter (tfilter st) fmask = Inr fm"
    "wf_frame fm" "index fm = index fmask" "columns fm = columns fmask" by blast
  show ?thesis
  proof (cases "count_true fm = 0")
    case True
    with fm show ?thesis by (simp add: append_test_results_def)
  next
    case False
    then have pos: "0 < count_true fm" by simp
    let ?n = "length (index fmask)"
    have n: "0 < ?n" using count_true_rows[OF fm(2) pos] fm(3) by simp
    have rect: "\<forall>row\<in>set (cells fm). length row = ?n"
      using fm(2,3) by (simp add: wf_frame_def)
    from find_blocks_bounds[OF rect n] obtain b where b: "find_blocks (cells fm) = Inr b"
      and l: "length (Start_Col b) = length (Start_Row b)" "length (Stop_Row b) = length (Start_Row b)"
      and bnd: "\<forall>i<length (Start_Row b). Start_Col b ! i < length (cells fm) \<and>
        Stop_Col b ! i = Start_Col b ! i \<and> Start_Row b ! i \<le> Stop_Row b ! i \<and> Stop_Row b ! i < ?n"
      by blast
    have axes: "sub_df_axes st fm use_mask_only = Inr (index fmask, columns fmask)"
    proof (cases use_mask_only)
      case True
      then show ?thesis by (simp add: sub_df_axes_def fm)
    next
      case False
      with sub have s: "index (df st) = index fmask" "distinct (columns (df st))"
        "set (columns fmask) \<subseteq> set (columns (df st))" by simp_all
      from select_columns_axes[OF s(2) s(3)] False s(1) show ?thesis
        by (auto simp: sub_df_axes_def fm)
    qed
    have cols: "length (cells fm) = length (columns fmask)"
      using fm(2,4) by (simp add: wf_frame_def)
    have inrange: "\<forall>i\<in>set [0..<length (Start_Col b)]. i < length (Stop_Row b) \<and> i < length (Start_Row b) \<and>
        (use_mask_only \<or> Start_Col b ! i < length (columns fmask)) \<and>
        Start_Row b ! i < ?n \<and> Stop_Row b ! i < ?n"
      using bnd l cols by fastforce
    have "append_test_results st fmask msg k use_mask_only =
        record_blocks st (index fmask) (columns fmask) use_mask_only msg k b [0..<length (Start_Col b)]"
      using fm(1) False axes b by (simp add: append_test_results_def)
    also note record_blocks_filter[OF inrange]
    finally have "append_test_results st fmask msg k use_mask_only =
        Returned (st\<lparr>test_results := test_results st @
               map (block_result (index fmask) (columns fmask) use_mask_only msg b)
                 (filter (\<lambda>i. k \<le> block_length b i) [0..<length (Start_Col b)])\<rparr>)" .
    with fm pos n b show ?thesis by blast
  qed
qed

section \<open>The mask fold\<close>

lemma length_assign_rows: "length (assign_rows rows v col) = length col"
  by (simp add: assign_rows_def)

lemma nth_assign_rows:
  "i < length col \<Longrightarrow> assign_rows rows v col ! i = (if i \<in> set rows then v else col ! i)"
  by (simp add: assign_rows_def)

lemma assign_rows_idem: "assign_rows rows v (assign_rows rows v col) = assign_rows rows v col"
  by (rule nth_equalityI) (simp_all add: length_assign_rows nth_assign_rows)

lemma assign_rows_commute:
  "assign_rows r1 v (assign_rows r2 v col) = assign_rows r2 v (assign_rows r1 v col)"
  by (rule nth_equalityI) (simp_all add: length_assign_rows nth_assign_rows)

lemma map2_map2_same:
  "map2 f ns (map2 g ns cs) = map2 (\<lambda>n c. f n (g n c)) ns cs"
  by (induction ns arbitrary: cs) (auto simp: zip_Cons1 split: list.splits)

lemma assign_cells_axes [simp]:
  "index (assign_cells rows var v f) = index f" "columns (assign_cells rows var v f) = columns f"
  by (simp_all add: assign_cells_def)

lemma fold_result_axes [simp]: "index (fold_result r m) = index m" "columns (fold_result r m) = columns m"
  by (simp_all add: fold_result_def split: option.splits)

lemma fold_results_axes [simp]:
  "index (fold fold_result rs m) = index m" "columns (fold fold_result rs m) = columns m"
  by (induction rs arbitrary: m) simp_all

lemma assign_cells_idem:
  "assign_cells rows var v (assign_cells rows var v f) = assign_cells rows var v f"
proof -
  have "(\<lambda>n c. if n = var then assign_rows rows v (if n = var then assign_rows rows v c else c)
                 else (if n = var then assign_rows rows v c else c))
      = (\<lambda>n c. if n = var then assign_rows rows v c else c)"
    by (auto simp: fun_eq_iff assign_rows_idem)
  then show ?thesis by (simp add: assign_cells_def map2_map2_same)
qed

lemma assign_cells_commute:
  "assign_cells r1 x v (assign_cells r2 y v f) = assign_cells r2 y v (assign_cells r1 x v f)"
proof -
  have "(\<lambda>n c. if n = x then assign_rows r1 v (if n = y then assign_rows r2 v c else c)
                 else (if n = y then assign_rows r2 v c else c))
      = (\<lambda>n c. if n = y then assign_rows r2 v (if n = x then assign_rows r1 v c else c)
                 else (if n = x then assign_rows r1 v c else c))"
    by (auto simp: fun_eq_iff assign_rows_commute)
  then show ?thesis by (simp add: assign_cells_def map2_map2_same)
qed

lemma fold_result_idem: "fold_result r (fold_result r m) = fold_result r m"
  by (simp add: fold_result_def assign_cells_idem split: option.splits)

lemma fold_result_commute: "fold_result r (fold_result q m) = fold_result q (fold_result r m)"
  by (simp add: fold_result_def assign_cells_commute split: option.splits)

lemma fold_result_key:
  "Variable_Name r' = Variable_Name r \<Longrightarrow> Start_Time r' = Start_Time r \<Longrightarrow> End_Time r' = End_Time r \<Longrightarrow>
     fold_result r' = fold_result r"
  by (simp add: fun_eq_iff fold_result_def split: option.splits)

lemma fold_result_past_fold: "fold_result r (fold fold_result rs m) = fold fold_result rs (fold_result r m)"
  by (induction rs arbitrary: m) (simp_all add: fold_result_commute)

lemma fold_result_absorbed:
  "r \<in> set rs \<Longrightarrow> fold_result r (fold fold_result rs m) = fold fold_result rs m"
proof (induction rs arbitrary: m)
  case Nil
  then show ?case by simp
next
  case (Cons q rs)
  show ?case
  proof (cases "r = q")
    case True
    then show ?thesis by (simp add: fold_result_past_fold fold_result_idem)
  next
    case False
    with Cons show ?thesis by simp
  qed
qed

text \<open>Cell by cell, one table of flags is below another.\<close>

lemma assign_rows_below: "list_all2 (\<lambda>a b. a \<longrightarrow> b) (assign_rows rows False col) col"
  by (simp add: list_all2_conv_all_nth length_assign_rows nth_assign_rows)

lemma assign_cells_below:
  "length (cells m) \<le> length (columns m) \<Longrightarrow>
   list_all2 (list_all2 (\<lambda>a b. a \<longrightarrow> b)) (cells (assign_cells rows var False m)) (cells m)"
  by (auto simp: assign_cells_def list_all2_conv_all_nth length_assign_rows nth_assign_rows)

section \<open>From recorded rows back to cells\<close>






section \<open>The range test\<close>


lemma frame_lt_axes [simp]:
  "index (frame_lt f b) = index f" "columns (frame_lt f b) = columns f"
  "wf_frame f \<Longrightarrow> wf_frame (frame_lt f b)"
  by (auto simp: frame_lt_def wf_frame_def)

lemma frame_gt_axes [simp]:
  "index (frame_gt f b) = index f" "columns (frame_gt f b) = columns f"
  "wf_frame f \<Longrightarrow> wf_frame (frame_gt f b)"
  by (auto simp: frame_gt_def wf_frame_def)







section \<open>What the tests change\<close>

lemma appends_only_refl [simp]: "appends_only st st"
  by (simp add: appends_only_def)

lemma appends_only_trans: "appends_only a b \<Longrightarrow> appends_only b c \<Longrightarrow> appends_only a c"
  by (auto simp: appends_only_def)

lemma appends_only_fields [simp]:
  "appends_only st (st'\<lparr>logged := l\<rparr>) = appends_only st st'"
  "appends_only (st\<lparr>logged := l\<rparr>) st' = appends_only st st'"
  "appends_only st (st'\<lparr>df := d\<rparr>) = appends_only st st'"
  "appends_only (st\<lparr>df := d\<rparr>) st' = appends_only st st'"
  by (simp_all add: appends_only_def)

lemma record_blocks_frame:
  "df (final (record_blocks st idx names u msg k b is)) = df st \<and>
   logged (final (record_blocks st idx names u msg k b is)) = logged st \<and>
   tfilter (final (record_blocks st idx names u msg k b is)) = tfilter st \<and>
   trans_dict (final (record_blocks st idx names u msg k b is)) = trans_dict st \<and>
   appends_only st (final (record_blocks st idx names u msg k b is))"
proof (induction "is" arbitrary: st)
  case Nil
  show ?case by simp
next
  case (Cons i rest)
  let ?st' = "st\<lparr>test_results := test_results st @ [block_result idx names u msg b i]\<rparr>"
  have "appends_only st ?st'" by (simp add: appends_only_def)
  with Cons[of ?st'] Cons[of st] show ?case
    by (auto intro: appends_only_trans)
qed

lemma append_test_results_frame:
  "df (final (append_test_results st fmask msg k u)) = df st \<and>
   logged (final (append_test_results st fmask msg k u)) = logged st \<and>
   tfilter (final (append_test_results st fmask msg k u)) = tfilter st \<and>
   trans_dict (final (append_test_results st fmask msg k u)) = trans_dict st \<and>
   appends_only st (final (append_test_results st fmask msg k u))"
  using record_blocks_frame
  by (simp add: append_test_results_def split: sum.splits prod.splits)

lemma lower_bound_test_frame:
  "df (final (lower_bound_test str st data bound k p)) = df st \<and>
   logged (final (lower_bound_test str st data bound k p)) = logged st \<and>
   tfilter (final (lower_bound_test str st data bound k p)) = tfilter st \<and>
   trans_dict (final (lower_bound_test str st data bound k p)) = trans_dict st \<and>
   appends_only st (final (lower_bound_test str st data bound k p))"
  using append_test_results_frame
  by (simp add: lower_bound_test_def split: bound_entry.splits)

lemma upper_bound_test_frame:
  "df (final (upper_bound_test str st data bound k p)) = df st \<and>
   logged (final (upper_bound_test str st data bound k p)) = logged st \<and>
   tfilter (final (upper_bound_test str st data bound k p)) = tfilter st \<and>
   trans_dict (final (upper_bound_test str st data bound k p)) = trans_dict st \<and>
   appends_only st (final (upper_bound_test str st data bound k p))"
  using append_test_results_frame
  by (simp add: upper_bound_test_def split: bound_entry.splits)

lemma final_with_bound [simp]: "final (with_bound out bound) = (final out, bound)"
  by (cases out) simp_all

lemma returned_with_bound [simp]: "returned (with_bound out bound) = returned out"
  by (cases out) simp_all

lemma generate_test_results_frame:
  "df (fst (final (generate_test_results str st data bound k p))) = df st \<and>
   logged (fst (final (generate_test_results str st data bound k p))) = logged st \<and>
   tfilter (fst (final (generate_test_results str st data bound k p))) = tfilter st \<and>
   trans_dict (fst (final (generate_test_results str st data bound k p))) = trans_dict st \<and>
   appends_only st (fst (final (generate_test_results str st data bound k p))) \<and>
   snd (final (generate_test_results str st data bound k p)) = normalize_bound bound"
proof -
  let ?b = "normalize_bound bound"
  let ?lo = "lower_bound_test str st data ?b k p"
  show ?thesis
  proof (cases ?lo)
    case (Returned st1)
    with lower_bound_test_frame[of str st data ?b k p]
    have 1: "df st1 = df st" "logged st1 = logged st" "tfilter st1 = tfilter st"
      "trans_dict st1 = trans_dict st" "appends_only st st1" by simp_all
    from upper_bound_test_frame[of str st1 data ?b k p] 1 Returned show ?thesis
      by (auto simp: generate_test_results_def Let_def intro: appends_only_trans)
  next
    case (Raised e st1)
    with lower_bound_test_frame[of str st data ?b k p] show ?thesis
      by (simp add: generate_test_results_def Let_def)
  qed
qed



lemma appends_only_same: "test_results st' = test_results st \<Longrightarrow> appends_only st st'"
  by (simp add: appends_only_def)

lemma appends_only_via:
  "test_results st1 = test_results st \<Longrightarrow> appends_only st1 st2 \<Longrightarrow> appends_only st st2"
  by (simp add: appends_only_def)






lemma delta_lower_test_frame:
  "df (final (delta_lower_test str st d tmin tmax bound k p)) = df st \<and>
   logged (final (delta_lower_test str st d tmin tmax bound k p)) = logged st \<and>
   tfilter (final (delta_lower_test str st d tmin tmax bound k p)) = tfilter st \<and>
   trans_dict (final (delta_lower_test str st d tmin tmax bound k p)) = trans_dict st \<and>
   appends_only st (final (delta_lower_test str st d tmin tmax bound k p))"
  using append_test_results_frame
  by (simp add: delta_lower_test_def split: bound_entry.splits sum.splits)

lemma delta_upper_test_frame:
  "df (final (delta_upper_test str st d tmin tmax bound k p)) = df st \<and>
   logged (final (delta_upper_test str st d tmin tmax bound k p)) = logged st \<and>
   tfilter (final (delta_upper_test str st d tmin tmax bound k p)) = tfilter st \<and>
   trans_dict (final (delta_upper_test str st d tmin tmax bound k p)) = trans_dict st \<and>
   appends_only st (final (delta_upper_test str st d tmin tmax bound k p))"
  using append_test_results_frame
  by (simp add: delta_upper_test_def split: bound_entry.splits sum.splits)

lemma delta_tests_frame:
  "df (fst (final (case delta_lower_test str st d tmin tmax b k p of
        Raised e st \<Rightarrow> Raised e (st, b)
      | Returned st \<Rightarrow> with_bound (delta_upper_test str st d tmin tmax b k p) b))) = df st \<and>
   appends_only st (fst (final (case delta_lower_test str st d tmin tmax b k p of
        Raised e st \<Rightarrow> Raised e (st, b)
      | Returned st \<Rightarrow> with_bound (delta_upper_test str st d tmin tmax b k p) b))) \<and>
   snd (final (case delta_lower_test str st d tmin tmax b k p of
        Raised e st \<Rightarrow> Raised e (st, b)
      | Returned st \<Rightarrow> with_bound (delta_upper_test str st d tmin tmax b k p) b)) = b"
proof (cases "delta_lower_test str st d tmin tmax b k p")
  case (Returned st1)
  with delta_lower_test_frame[of str st d tmin tmax b k p]
  have 1: "df st1 = df st" "appends_only st st1" by simp_all
  from delta_upper_test_frame[of str st1 d tmin tmax b k p] 1 Returned show ?thesis
    by (auto intro: appends_only_trans)
next
  case (Raised e st1)
  with delta_lower_test_frame[of str st d tmin tmax b k p] show ?thesis by simp
qed

lemma check_delta_cases:
  assumes "setup_data (st\<lparr>logged := logged st @ [Info ''Check delta (max-min) range'']\<rparr>) key
             = (st1, Some data)"
  shows "check_delta str st bound key w a k =
     (if \<not> sorted (index data) then Raised ValueError (st1, bound)
      else case delta_lower_test str st1 (diff_df (w * 1000000000) a data) (tmin_df (w * 1000000000) data)
                  (tmax_df (w * 1000000000) data) (normalize_bound bound) k
                  (if a then ''|Delta|'' else ''Delta'') of
             Raised e st \<Rightarrow> Raised e (st, normalize_bound bound)
           | Returned st \<Rightarrow>
               with_bound (delta_upper_test str st (diff_df (w * 1000000000) a data)
                  (tmin_df (w * 1000000000) data) (tmax_df (w * 1000000000) data) (normalize_bound bound) k
                  (if a then ''|Delta|'' else ''Delta'')) (normalize_bound bound))"
  using assms by (simp add: check_delta_def Let_def)





section \<open>The bounds after a test\<close>

lemma normalize_bound_prefix:
  "n \<le> length bound \<Longrightarrow>
   fold (\<lambda>i b. if b ! i \<in> set none_list then b[i := BNone] else b) [0..<n] bound
     = map (\<lambda>b. if b \<in> set none_list then BNone else b) (take n bound) @ drop n bound"
proof (induction n)
  case 0
  show ?case by simp
next
  case (Suc n)
  let ?g = "\<lambda>b. if b \<in> set none_list then BNone else b"
  let ?b = "map ?g (take n bound) @ drop n bound"
  from Suc.prems have n: "n < length bound" by simp
  then have nth: "?b ! n = bound ! n" by (simp add: nth_append)
  have upd: "?b[n := x] = map ?g (take n bound) @ x # drop (Suc n) bound" for x
    using n by (simp add: list_update_append Cons_nth_drop_Suc[symmetric])
  have same: "?b = map ?g (take n bound) @ bound ! n # drop (Suc n) bound"
    using n by (simp add: Cons_nth_drop_Suc)
  have tk: "map ?g (take (Suc n) bound) = map ?g (take n bound) @ [?g (bound ! n)]"
    using n by (simp add: take_Suc_conv_app_nth)
  have "fold (\<lambda>i b. if b ! i \<in> set none_list then b[i := BNone] else b) [0..<Suc n] bound
      = (if ?b ! n \<in> set none_list then ?b[n := BNone] else ?b)"
    using Suc.IH n by simp
  also have "\<dots> = map ?g (take (Suc n) bound) @ drop (Suc n) bound"
  proof (cases "bound ! n \<in> set none_list")
    case True
    then show ?thesis unfolding nth tk using upd[of BNone] by simp
  next
    case False
    then show ?thesis unfolding nth tk using same by simp
  qed
  finally show ?case .
qed

lemma normalize_bound_map:
  "normalize_bound bound = map (\<lambda>b. if b \<in> set none_list then BNone else b) bound"
  using normalize_bound_prefix[of "length bound" bound] by (simp add: normalize_bound_def)

lemma normalize_bound_idem: "normalize_bound (normalize_bound bound) = normalize_bound bound"
  by (simp add: normalize_bound_map none_list_def)

lemma setup_data_logged:
  "snd (setup_data (st\<lparr>logged := l\<rparr>) key) = snd (setup_data st key)"
  by (simp add: setup_data_def split: option.splits sum.splits)

section \<open>The increment test\<close>

lemma increments_axes [simp]:
  "index (increments n a data) = index data" "columns (increments n a data) = columns data"
  by (simp_all add: increments_def map_frame_def)






text \<open>
  Claim C1. On a boolean matrix with at least one sample per column (an all-false or
  empty mask returns before this step), the block extraction of
  \<^verbatim>\<open>_append_test_results\<close> yields four index lists of equal length such that:
  a (row, column) pair is listed as a start exactly when the cell is true and is the
  first of its column or follows a false cell; it is listed as a stop exactly when
  the cell is true and is the last of its column or precedes a false cell; the k-th
  start and the k-th stop lie in the same column, in order, with only true cells
  between them; two blocks of one column never overlap; every true cell lies in a
  block; and the inclusive lengths of the blocks add up to the number of true cells.
\<close>

theorem find_blocks_maximal_runs:
  assumes "\<forall>row\<in>set np_mask. length row = n" and "0 < n"
  shows "\<exists>b. find_blocks np_mask = Inr b \<and>
     length (Start_Col b) = length (Start_Row b) \<and>
     length (Stop_Row b) = length (Start_Row b) \<and>
     length (Stop_Col b) = length (Start_Row b) \<and>
     (\<forall>c i. (i, c) \<in> set (zip (Start_Row b) (Start_Col b)) \<longleftrightarrow>
        c < length np_mask \<and> i < n \<and> np_mask ! c ! i \<and> (i = 0 \<or> \<not> np_mask ! c ! (i - 1))) \<and>
     (\<forall>c j. (j, c) \<in> set (zip (Stop_Row b) (Stop_Col b)) \<longleftrightarrow>
        c < length np_mask \<and> j < n \<and> np_mask ! c ! j \<and> (j = n - 1 \<or> \<not> np_mask ! c ! (j + 1))) \<and>
     (\<forall>k<length (Start_Row b). Stop_Col b ! k = Start_Col b ! k \<and>
        Start_Row b ! k \<le> Stop_Row b ! k \<and>
        (\<forall>i. Start_Row b ! k \<le> i \<and> i \<le> Stop_Row b ! k \<longrightarrow> np_mask ! (Start_Col b ! k) ! i)) \<and>
     (\<forall>k l. k < l \<and> l < length (Start_Row b) \<and> Start_Col b ! k = Start_Col b ! l \<longrightarrow>
        Stop_Row b ! k < Start_Row b ! l) \<and>
     (\<forall>c i. c < length np_mask \<and> i < n \<and> np_mask ! c ! i \<longrightarrow>
        (\<exists>k<length (Start_Row b). Start_Col b ! k = c \<and> Start_Row b ! k \<le> i \<and> i \<le> Stop_Row b ! k)) \<and>
     (\<Sum>k<length (Start_Row b). int (Stop_Row b ! k) - int (Start_Row b ! k) + 1)
        = int (\<Sum>row\<leftarrow>np_mask. length (filter id row))"
  using assms by (rule find_blocks_runs)

theorem find_blocks_maximal_runs_witness:
  "map length [[True, False, True, True], [False, False, False, True]] = [4, 4] \<and> (0::nat) < 4 \<and>
   find_blocks [[True, False, True, True], [False, False, False, True]]
     = Inr \<lparr>Start_Row = [0, 2, 3], Start_Col = [0, 0, 1], Stop_Row = [0, 3, 3], Stop_Col = [0, 0, 1]\<rparr> \<and>
   (\<Sum>k<length [0, 2, 3 :: nat]. int ([0, 3, 3 :: nat] ! k) - int ([0, 2, 3 :: nat] ! k) + 1)
     = int (\<Sum>row\<leftarrow>[[True, False, True, True], [False, False, False, True]]. length (filter id row))"
proof -
  let ?m = "[[True, False, True, True], [False, False, False, True]]"
  have ev: "find_blocks ?m
     = Inr \<lparr>Start_Row = [0, 2, 3], Start_Col = [0, 0, 1], Stop_Row = [0, 3, 3], Stop_Col = [0, 0, 1]\<rparr>"
    by (simp add: find_blocks_def np_where_def where1_def start_nans_row_def stop_nans_row_def
        upt_rec[of 0] upt_rec[of 1] upt_rec[of 2] upt_rec[of 3] upt_rec[of 4])
  have h: "\<forall>row\<in>set ?m. length row = 4" by simp
  from find_blocks_maximal_runs[OF h] ev show ?thesis by simp
qed

text \<open>
  Claim C2. When the mask is well formed, the time filter is unset or labelled like
  the mask, and (unless \<^verbatim>\<open>use_mask_only\<close>) the mask's columns are columns of a table with
  the same index, \<^verbatim>\<open>_append_test_results\<close> returns, and the rows it appends are
  exactly those of the extracted blocks whose inclusive length
  \<^verbatim>\<open>Stop Row - Start Row + 1\<close> is at least \<^verbatim>\<open>min_failures\<close>, in the order of extraction.
  Every block has length at least 1, so every block is recorded when
  \<^verbatim>\<open>min_failures\<close> is at most 1, and no appended row has fewer than \<^verbatim>\<open>min_failures\<close>
  timesteps.
\<close>

theorem append_test_results_min_failures:
  assumes "wf_frame fmask"
    and "tfilter st = [] \<or> map fst (tfilter st) = index fmask"
    and "use_mask_only \<or> (index (df st) = index fmask \<and> distinct (columns (df st)) \<and>
           set (columns fmask) \<subseteq> set (columns (df st)))"
  shows "\<exists>fm. apply_tfilter (tfilter st) fmask = Inr fm \<and>
      ((count_true fm = 0 \<and> append_test_results st fmask msg k use_mask_only = Returned st) \<or>
       (\<exists>b. find_blocks (cells fm) = Inr b \<and>
          append_test_results st fmask msg k use_mask_only =
            Returned (st\<lparr>test_results := test_results st @
               map (block_result (index fmask) (columns fmask) use_mask_only msg b)
                 (filter (\<lambda>i. k \<le> block_length b i) [0..<length (Start_Col b)])\<rparr>) \<and>
          (\<forall>i<length (Start_Col b). 1 \<le> block_length b i) \<and>
          (k \<le> 1 \<longrightarrow> filter (\<lambda>i. k \<le> block_length b i) [0..<length (Start_Col b)]
                         = [0..<length (Start_Col b)]))) \<and>
      (\<forall>r\<in>set (drop (length (test_results st))
                 (test_results (final (append_test_results st fmask msg k use_mask_only)))).
         k \<le> Timesteps r)"
proof -
  from append_test_results_recorded[OF assms, of msg k] obtain fm
    where fm: "apply_tfilter (tfilter st) fmask = Inr fm" "wf_frame fm" "index fm = index fmask"
    and cases: "(count_true fm = 0 \<and> append_test_results st fmask msg k use_mask_only = Returned st) \<or>
       (0 < count_true fm \<and> 0 < length (index fmask) \<and>
        (\<exists>b. find_blocks (cells fm) = Inr b \<and>
           append_test_results st fmask msg k use_mask_only =
             Returned (st\<lparr>test_results := test_results st @
               map (block_result (index fmask) (columns fmask) use_mask_only msg b)
                 (filter (\<lambda>i. k \<le> block_length b i) [0..<length (Start_Col b)])\<rparr>)))"
    by blast
  from cases show ?thesis
  proof
    assume "count_true fm = 0 \<and> append_test_results st fmask msg k use_mask_only = Returned st"
    with fm(1) show ?thesis by simp
  next
    assume "0 < count_true fm \<and> 0 < length (index fmask) \<and>
        (\<exists>b. find_blocks (cells fm) = Inr b \<and>
           append_test_results st fmask msg k use_mask_only =
             Returned (st\<lparr>test_results := test_results st @
               map (block_result (index fmask) (columns fmask) use_mask_only msg b)
                 (filter (\<lambda>i. k \<le> block_length b i) [0..<length (Start_Col b)])\<rparr>))"
    then obtain b where n: "0 < length (index fmask)" and b: "find_blocks (cells fm) = Inr b"
      and res: "append_test_results st fmask msg k use_mask_only =
             Returned (st\<lparr>test_results := test_results st @
               map (block_result (index fmask) (columns fmask) use_mask_only msg b)
                 (filter (\<lambda>i. k \<le> block_length b i) [0..<length (Start_Col b)])\<rparr>)"
      by blast
    have rect: "\<forall>row\<in>set (cells fm). length row = length (index fmask)"
      using fm(2,3) by (simp add: wf_frame_def)
    from find_blocks_bounds[OF rect n] b
    have l: "length (Start_Col b) = length (Start_Row b)"
      and bnd: "\<forall>i<length (Start_Row b). Start_Row b ! i \<le> Stop_Row b ! i" by auto
    have len1: "\<forall>i<length (Start_Col b). 1 \<le> block_length b i"
      using l bnd by (simp add: block_length_def)
    have all: "k \<le> 1 \<longrightarrow> filter (\<lambda>i. k \<le> block_length b i) [0..<length (Start_Col b)]
                         = [0..<length (Start_Col b)]"
    proof
      assume "k \<le> 1"
      with len1 have "\<forall>i\<in>set [0..<length (Start_Col b)]. k \<le> block_length b i" by fastforce
      then show "filter (\<lambda>i. k \<le> block_length b i) [0..<length (Start_Col b)] = [0..<length (Start_Col b)]"
        by (simp only: filter_True)
    qed
    have "\<forall>r\<in>set (drop (length (test_results st))
                 (test_results (final (append_test_results st fmask msg k use_mask_only)))).
         k \<le> Timesteps r"
      by (auto simp: res block_result_def)
    with fm(1) b res len1 all show ?thesis by blast
  qed
qed

theorem append_test_results_min_failures_witness:
  "wf_frame \<lparr>index = [0, 1, 2, 3, 4], columns = [''A''], cells = [[True, True, False, True, False]]\<rparr> \<and>
   returned (append_test_results
      \<lparr>df = \<lparr>index = [0, 1, 2, 3, 4], columns = [''A''], cells = [[Some 1, Some 2, None, Some 4, Some 5]]\<rparr>,
        trans_dict = Map.empty, tfilter = [], test_results = [], logged = []\<rparr>
      \<lparr>index = [0, 1, 2, 3, 4], columns = [''A''], cells = [[True, True, False, True, False]]\<rparr>
      ''Missing data'' 2 False) \<and>
   test_results (final (append_test_results
      \<lparr>df = \<lparr>index = [0, 1, 2, 3, 4], columns = [''A''], cells = [[Some 1, Some 2, None, Some 4, Some 5]]\<rparr>,
        trans_dict = Map.empty, tfilter = [], test_results = [], logged = []\<rparr>
      \<lparr>index = [0, 1, 2, 3, 4], columns = [''A''], cells = [[True, True, False, True, False]]\<rparr>
      ''Missing data'' 2 False))
     = [\<lparr>Variable_Name = ''A'', Start_Time = 0, End_Time = 1, Timesteps = 2, Error_Flag = ''Missing data''\<rparr>]"
proof -
  let ?fmask = "\<lparr>index = [0, 1, 2, 3, 4], columns = [''A''], cells = [[True, True, False, True, False]]\<rparr>"
  let ?st = "\<lparr>df = \<lparr>index = [0, 1, 2, 3, 4], columns = [''A''], cells = [[Some 1, Some 2, None, Some 4, Some 5]]\<rparr>,
        trans_dict = Map.empty, tfilter = [], test_results = [], logged = []\<rparr>"
  have wf: "wf_frame ?fmask" by (simp add: wf_frame_def)
  have tf: "tfilter ?st = [] \<or> map fst (tfilter ?st) = index ?fmask" by simp
  have sub: "False \<or> (index (df ?st) = index ?fmask \<and> distinct (columns (df ?st)) \<and>
           set (columns ?fmask) \<subseteq> set (columns (df ?st)))" by simp
  have ev: "returned (append_test_results ?st ?fmask ''Missing data'' 2 False) \<and>
     test_results (final (append_test_results ?st ?fmask ''Missing data'' 2 False))
     = [\<lparr>Variable_Name = ''A'', Start_Time = 0, End_Time = 1, Timesteps = 2, Error_Flag = ''Missing data''\<rparr>]"
    by code_simp
  from append_test_results_min_failures[OF wf tf sub, of "''Missing data''" 2] wf ev
  show ?thesis by (simp only: simp_thms)
qed

text \<open>
  Claim C3. The property \<^verbatim>\<open>mask\<close> folds the recorded intervals into the table of
  present cells. Appending a row with the variable name, start time and end time of
  a row already recorded makes \<^verbatim>\<open>test_results\<close> one longer and leaves the mask as it
  was. Appending any row leaves the axes of the mask alone and, cell by cell, can
  only take a flag from \<^verbatim>\<open>True\<close> (pass) to \<^verbatim>\<open>False\<close> (fail).
\<close>

theorem mask_fold_idempotent:
  assumes "wf_frame (df st)"
  shows "(\<forall>r r'. r \<in> set (test_results st) \<and> Variable_Name r' = Variable_Name r \<and>
            Start_Time r' = Start_Time r \<and> End_Time r' = End_Time r \<longrightarrow>
          snd (pm_mask (st\<lparr>test_results := test_results st @ [r']\<rparr>)) = snd (pm_mask st) \<and>
          length (test_results (st\<lparr>test_results := test_results st @ [r']\<rparr>))
            = length (test_results st) + 1) \<and>
         (\<forall>q m. snd (pm_mask st) = Some m \<longrightarrow>
            (\<exists>m'. snd (pm_mask (st\<lparr>test_results := test_results st @ [q]\<rparr>)) = Some m' \<and>
               index m' = index m \<and> columns m' = columns m \<and>
               list_all2 (list_all2 (\<lambda>after before. after \<longrightarrow> before)) (cells m') (cells m)))"
proof (intro conjI allI impI)
  fix r r' :: test_result
  assume a: "r \<in> set (test_results st) \<and> Variable_Name r' = Variable_Name r \<and>
            Start_Time r' = Start_Time r \<and> End_Time r' = End_Time r"
  then have eq: "fold_result r' = fold_result r" by (intro fold_result_key) simp_all
  from a have mem: "r \<in> set (test_results st)" by simp
  have "fold fold_result (test_results st @ [r']) m0 = fold fold_result (test_results st) m0" for m0
    using fold_result_absorbed[OF mem, of m0] by (simp add: eq)
  then show "snd (pm_mask (st\<lparr>test_results := test_results st @ [r']\<rparr>)) = snd (pm_mask st)"
    by (simp add: pm_mask_def)
  show "length (test_results (st\<lparr>test_results := test_results st @ [r']\<rparr>))
            = length (test_results st) + 1" by simp
next
  fix q :: test_result and m
  assume m: "snd (pm_mask st) = Some m"
  then have ne: "\<not> empty_frame (df st)"
    and meq: "m = fold fold_result (test_results st) (notnull (df st))"
    by (auto simp: pm_mask_def split: if_splits)
  have len: "length (cells m) \<le> length (columns m)"
  proof -
    have "length (cells (fold fold_result rs m0)) \<le> length (columns m0)"
      if "length (cells m0) \<le> length (columns m0)" for rs m0
      using that
    proof (induction rs arbitrary: m0)
      case Nil
      then show ?case by simp
    next
      case (Cons r rs)
      have "length (cells (fold_result r m0)) \<le> length (columns (fold_result r m0))"
        using Cons.prems by (simp add: fold_result_def assign_cells_def split: option.splits)
      from Cons.IH[OF this] show ?case by simp
    qed
    moreover have "length (cells (notnull (df st))) \<le> length (columns (notnull (df st)))"
      using assms by (simp add: notnull_def wf_frame_def)
    ultimately show ?thesis by (simp add: meq)
  qed
  let ?m' = "fold_result q m"
  have "snd (pm_mask (st\<lparr>test_results := test_results st @ [q]\<rparr>)) = Some ?m'"
    using ne by (simp add: pm_mask_def meq)
  moreover have "list_all2 (list_all2 (\<lambda>after before. after \<longrightarrow> before)) (cells ?m') (cells m)"
    using assign_cells_below[OF len]
    by (simp add: fold_result_def list_all2_refl split: option.splits)
  ultimately show "\<exists>m'. snd (pm_mask (st\<lparr>test_results := test_results st @ [q]\<rparr>)) = Some m' \<and>
               index m' = index m \<and> columns m' = columns m \<and>
               list_all2 (list_all2 (\<lambda>after before. after \<longrightarrow> before)) (cells m') (cells m)"
    by simp
qed

text \<open>
  Claim C9. With an empty table the property \<^verbatim>\<open>mask\<close> returns \<^verbatim>\<open>None\<close>, not an empty
  boolean table, and \<^verbatim>\<open>cleaned_data\<close>, which indexes the table with that value, raises
  \<^verbatim>\<open>KeyError\<close>. Neither call changes anything but the log. With data loaded both
  return a table.
\<close>

theorem mask_empty_is_None:
  "(empty_frame (df st) \<longrightarrow>
      pm_mask st = (st\<lparr>logged := logged st @ [Info ''Empty database'']\<rparr>, None) \<and>
      cleaned_data st = (st\<lparr>logged := logged st @ [Info ''Empty database'']\<rparr>, Inl KeyError)) \<and>
   (\<not> empty_frame (df st) \<longrightarrow>
      (\<exists>m. pm_mask st = (st, Some m)) \<and> (\<exists>f. cleaned_data st = (st, Inr f)))"
  by (simp add: pm_mask_def cleaned_data_def)

theorem mask_empty_is_None_witness:
  "empty_frame (df \<lparr>df = \<lparr>index = [], columns = [], cells = []\<rparr>, trans_dict = Map.empty,
                    tfilter = [], test_results = [], logged = []\<rparr>) \<and>
   snd (pm_mask \<lparr>df = \<lparr>index = [], columns = [], cells = []\<rparr>, trans_dict = Map.empty,
                  tfilter = [], test_results = [], logged = []\<rparr>) = None \<and>
   snd (cleaned_data \<lparr>df = \<lparr>index = [], columns = [], cells = []\<rparr>, trans_dict = Map.empty,
                  tfilter = [], test_results = [], logged = []\<rparr>) = Inl KeyError"
proof -
  let ?st = "\<lparr>df = \<lparr>index = [], columns = [], cells = []\<rparr>, trans_dict = Map.empty,
                    tfilter = [], test_results = [], logged = []\<rparr>"
  have e: "empty_frame (df ?st)" by (simp add: empty_frame_def)
  from mask_empty_is_None[of ?st, THEN conjunct1, rule_format, OF e] e
  show ?thesis by simp
qed

theorem mask_fold_idempotent_witness:
  "snd (pm_mask
      \<lparr>df = \<lparr>index = [0, 10, 20, 30], columns = [''A'', ''B''],
              cells = [[Some 1, Some 2, Some 3, None], [Some 5, Some 6, Some 7, Some 8]]\<rparr>,
        trans_dict = Map.empty, tfilter = [],
        test_results = [\<lparr>Variable_Name = ''A'', Start_Time = 10, End_Time = 20, Timesteps = 2,
                          Error_Flag = ''Data > upper bound, 1''\<rparr>],
        logged = []\<rparr>)
     = Some \<lparr>index = [0, 10, 20, 30], columns = [''A'', ''B''],
             cells = [[True, False, False, False], [True, True, True, True]]\<rparr> \<and>
   snd (pm_mask
      \<lparr>df = \<lparr>index = [0, 10, 20, 30], columns = [''A'', ''B''],
              cells = [[Some 1, Some 2, Some 3, None], [Some 5, Some 6, Some 7, Some 8]]\<rparr>,
        trans_dict = Map.empty, tfilter = [],
        test_results = [\<lparr>Variable_Name = ''A'', Start_Time = 10, End_Time = 20, Timesteps = 2,
                          Error_Flag = ''Data > upper bound, 1''\<rparr>,
                        \<lparr>Variable_Name = ''A'', Start_Time = 10, End_Time = 20, Timesteps = 2,
                          Error_Flag = ''Corrupt data''\<rparr>],
        logged = []\<rparr>)
     = Some \<lparr>index = [0, 10, 20, 30], columns = [''A'', ''B''],
             cells = [[True, False, False, False], [True, True, True, True]]\<rparr>"
proof -
  let ?r = "\<lparr>Variable_Name = ''A'', Start_Time = 10, End_Time = 20, Timesteps = 2,
                          Error_Flag = ''Data > upper bound, 1''\<rparr>"
  let ?r' = "\<lparr>Variable_Name = ''A'', Start_Time = 10, End_Time = 20, Timesteps = 2,
                          Error_Flag = ''Corrupt data''\<rparr>"
  let ?st = "\<lparr>df = \<lparr>index = [0, 10, 20, 30], columns = [''A'', ''B''],
              cells = [[Some 1, Some 2, Some 3, None], [Some 5, Some 6, Some 7, Some 8]]\<rparr>,
        trans_dict = Map.empty, tfilter = [], test_results = [?r], logged = []\<rparr>"
  have wf: "wf_frame (df ?st)" by (simp add: wf_frame_def)
  have ev: "snd (pm_mask ?st) = Some \<lparr>index = [0, 10, 20, 30], columns = [''A'', ''B''],
             cells = [[True, False, False, False], [True, True, True, True]]\<rparr>"
    by code_simp
  from mask_fold_idempotent[OF wf, THEN conjunct1, rule_format, of ?r ?r']
  have "snd (pm_mask (?st\<lparr>test_results := test_results ?st @ [?r']\<rparr>)) = snd (pm_mask ?st)"
    by simp
  with ev show ?thesis by simp
qed






text \<open>
  Claim C7. On an empty table every test returns at once, and so does each of the six
  tests that take a key when the key is not in the translation dictionary. The call
  does not raise; the object it leaves differs from the one it found only in the
  log, which has the test's own message and then \<^verbatim>\<open>Empty database\<close> or \<^verbatim>\<open>Undefined key\<close>;
  the list of bounds is untouched.
\<close>

theorem tests_skip_without_data:
  "(empty_frame (df st) \<longrightarrow>
      check_timestamp st frequency expected_start_time expected_end_time k exact_times
        = Returned (st\<lparr>logged := logged st @ [Info ''Check timestamp'', Info ''Empty database'']\<rparr>) \<and>
      check_range str st bound key k
        = Returned (st\<lparr>logged := logged st @ [Info ''Check data range'', Info ''Empty database'']\<rparr>, bound) \<and>
      check_increment str st bound key increment absolute_value k
        = Returned (st\<lparr>logged := logged st @ [Info ''Check increment range'', Info ''Empty database'']\<rparr>,
                    bound) \<and>
      check_delta str st bound key window absolute_value k
        = Returned (st\<lparr>logged := logged st @ [Info ''Check delta (max-min) range'',
                                                 Info ''Empty database'']\<rparr>, bound) \<and>
      check_outlier str st bound key window' absolute_value k
        = Returned (st\<lparr>logged := logged st @ [Info ''Check for outliers'', Info ''Empty database'']\<rparr>,
                    bound) \<and>
      check_missing st key k
        = Returned (st\<lparr>logged := logged st @ [Info ''Check for missing data'', Info ''Empty database'']\<rparr>) \<and>
      check_corrupt st corrupt_values key k
        = Returned (st\<lparr>logged := logged st @ [Info ''Check for corrupt data'', Info ''Empty database'']\<rparr>)) \<and>
   (\<not> empty_frame (df st) \<and> trans_dict st name = None \<longrightarrow>
      check_range str st bound (Some name) k
        = Returned (st\<lparr>logged := logged st @ [Info ''Check data range'',
                                                 Warning (''Undefined key: '' @ name)]\<rparr>, bound) \<and>
      check_increment str st bound (Some name) increment absolute_value k
        = Returned (st\<lparr>logged := logged st @ [Info ''Check increment range'',
                                                 Warning (''Undefined key: '' @ name)]\<rparr>, bound) \<and>
      check_delta str st bound (Some name) window absolute_value k
        = Returned (st\<lparr>logged := logged st @ [Info ''Check delta (max-min) range'',
                                                 Warning (''Undefined key: '' @ name)]\<rparr>, bound) \<and>
      check_outlier str st bound (Some name) window' absolute_value k
        = Returned (st\<lparr>logged := logged st @ [Info ''Check for outliers'',
                                                 Warning (''Undefined key: '' @ name)]\<rparr>, bound) \<and>
      check_missing st (Some name) k
        = Returned (st\<lparr>logged := logged st @ [Info ''Check for missing data'',
                                                 Warning (''Undefined key: '' @ name)]\<rparr>) \<and>
      check_corrupt st corrupt_values (Some name) k
        = Returned (st\<lparr>logged := logged st @ [Info ''Check for corrupt data'',
                                                 Warning (''Undefined key: '' @ name)]\<rparr>))"
proof (intro conjI impI)
  assume e: "empty_frame (df st)"
  then have sd: "setup_data (st\<lparr>logged := l\<rparr>) key
      = (st\<lparr>logged := l @ [Info ''Empty database'']\<rparr>, None)" for l
    by (simp add: setup_data_def)
  show "check_timestamp st frequency expected_start_time expected_end_time k exact_times
        = Returned (st\<lparr>logged := logged st @ [Info ''Check timestamp'', Info ''Empty database'']\<rparr>)"
    using e by (simp add: check_timestamp_def)
  show "check_range str st bound key k
        = Returned (st\<lparr>logged := logged st @ [Info ''Check data range'', Info ''Empty database'']\<rparr>, bound)"
    by (simp add: check_range_def sd)
  show "check_increment str st bound key increment absolute_value k
        = Returned (st\<lparr>logged := logged st @ [Info ''Check increment range'', Info ''Empty database'']\<rparr>,
                    bound)"
    by (simp add: check_increment_def sd)
  show "check_delta str st bound key window absolute_value k
        = Returned (st\<lparr>logged := logged st @ [Info ''Check delta (max-min) range'',
                                                 Info ''Empty database'']\<rparr>, bound)"
    by (simp add: check_delta_def sd)
  show "check_outlier str st bound key window' absolute_value k
        = Returned (st\<lparr>logged := logged st @ [Info ''Check for outliers'', Info ''Empty database'']\<rparr>,
                    bound)"
    by (simp add: check_outlier_def sd)
  show "check_missing st key k
        = Returned (st\<lparr>logged := logged st @ [Info ''Check for missing data'', Info ''Empty database'']\<rparr>)"
    by (simp add: check_missing_def sd)
  show "check_corrupt st corrupt_values key k
        = Returned (st\<lparr>logged := logged st @ [Info ''Check for corrupt data'', Info ''Empty database'']\<rparr>)"
    by (simp add: check_corrupt_def sd)
next
  assume u: "\<not> empty_frame (df st) \<and> trans_dict st name = None"
  then have sd: "setup_data (st\<lparr>logged := l\<rparr>) (Some name)
      = (st\<lparr>logged := l @ [Warning (''Undefined key: '' @ name)]\<rparr>, None)" for l
    by (simp add: setup_data_def)
  show "check_range str st bound (Some name) k
        = Returned (st\<lparr>logged := logged st @ [Info ''Check data range'',
                                                 Warning (''Undefined key: '' @ name)]\<rparr>, bound)"
    by (simp add: check_range_def sd)
  show "check_increment str st bound (Some name) increment absolute_value k
        = Returned (st\<lparr>logged := logged st @ [Info ''Check increment range'',
                                                 Warning (''Undefined key: '' @ name)]\<rparr>, bound)"
    by (simp add: check_increment_def sd)
  show "check_delta str st bound (Some name) window absolute_value k
        = Returned (st\<lparr>logged := logged st @ [Info ''Check delta (max-min) range'',
                                                 Warning (''Undefined key: '' @ name)]\<rparr>, bound)"
    by (simp add: check_delta_def sd)
  show "check_outlier str st bound (Some name) window' absolute_value k
        = Returned (st\<lparr>logged := logged st @ [Info ''Check for outliers'',
                                                 Warning (''Undefined key: '' @ name)]\<rparr>, bound)"
    by (simp add: check_outlier_def sd)
  show "check_missing st (Some name) k
        = Returned (st\<lparr>logged := logged st @ [Info ''Check for missing data'',
                                                 Warning (''Undefined key: '' @ name)]\<rparr>)"
    by (simp add: check_missing_def sd)
  show "check_corrupt st corrupt_values (Some name) k
        = Returned (st\<lparr>logged := logged st @ [Info ''Check for corrupt data'',
                                                 Warning (''Undefined key: '' @ name)]\<rparr>)"
    by (simp add: check_corrupt_def sd)
qed

theorem tests_skip_without_data_witness:
  "logged (fst (final (check_range (\<lambda>x. ''0'')
      \<lparr>df = \<lparr>index = [0, 1], columns = [''A''], cells = [[Some 1, Some 200]]\<rparr>,
        trans_dict = [''A'' \<mapsto> [''A'']], tfilter = [], test_results = [], logged = []\<rparr>
      [BNum 0, BNum 10] (Some ''Wind'') 1)))
     = [Info ''Check data range'', Warning ''Undefined key: Wind''] \<and>
   test_results (fst (final (check_range (\<lambda>x. ''0'')
      \<lparr>df = \<lparr>index = [0, 1], columns = [''A''], cells = [[Some 1, Some 200]]\<rparr>,
        trans_dict = [''A'' \<mapsto> [''A'']], tfilter = [], test_results = [], logged = []\<rparr>
      [BNum 0, BNum 10] (Some ''Wind'') 1))) = [] \<and>
   returned (check_timestamp
      \<lparr>df = \<lparr>index = [], columns = [], cells = []\<rparr>, trans_dict = Map.empty, tfilter = [],
        test_results = [], logged = []\<rparr> 60 None None 1 True)"
proof -
  let ?st = "\<lparr>df = \<lparr>index = [0, 1], columns = [''A''], cells = [[Some 1, Some 200]]\<rparr>,
        trans_dict = [''A'' \<mapsto> [''A'']], tfilter = [], test_results = [], logged = []\<rparr>"
  let ?e = "\<lparr>df = \<lparr>index = [], columns = [], cells = []\<rparr>, trans_dict = Map.empty, tfilter = [],
        test_results = [], logged = []\<rparr>"
  have u: "\<not> empty_frame (df ?st) \<and> trans_dict ?st ''Wind'' = None"
    by (simp add: empty_frame_def)
  have e: "empty_frame (df ?e)" by (simp add: empty_frame_def)
  from tests_skip_without_data[where st = ?st and name = "''Wind''", THEN conjunct2, rule_format, OF u,
      THEN conjunct1, of "\<lambda>x. ''0''" "[BNum 0, BNum 10]" 1]
  have 1: "check_range (\<lambda>x. ''0'') ?st [BNum 0, BNum 10] (Some ''Wind'') 1
        = Returned (?st\<lparr>logged := logged ?st @ [Info ''Check data range'',
                                                 Warning (''Undefined key: '' @ ''Wind'')]\<rparr>, [BNum 0, BNum 10])" .
  from tests_skip_without_data[where st = ?e, THEN conjunct1, rule_format, OF e, THEN conjunct1,
      of 60 None None 1 True]
  have 2: "returned (check_timestamp ?e 60 None None 1 True)" by simp
  from 1 2 show ?thesis by simp
qed

text \<open>
  Claim C10. \<^verbatim>\<open>check_range\<close>, \<^verbatim>\<open>check_increment\<close>, \<^verbatim>\<open>check_delta\<close> and \<^verbatim>\<open>check_outlier\<close>
  assign to the caller's list: once a test has its data (and, for the increment, a
  present cell; for the rolling tests, a sorted index), the list it leaves behind,
  whether it returns or raises, is the list it was given with every entry that is
  one of \<^verbatim>\<open>''\<close>, \<^verbatim>\<open>'none'\<close>, \<^verbatim>\<open>'None'\<close>, \<^verbatim>\<open>'NONE'\<close>, \<^verbatim>\<open>None\<close>, \<^verbatim>\<open>[]\<close>, \<^verbatim>\<open>{}\<close> replaced by \<^verbatim>\<open>None\<close>.
  The comparisons read the rewritten list: generating the results from the list as
  given and from the rewritten list is the same. A test that has no data returns
  the list as it was.
\<close>

theorem bound_sentinels_overwritten:
  "(snd (setup_data st key) = Some data \<longrightarrow>
      snd (final (check_range str st bound key k))
        = map (\<lambda>b. if b \<in> set none_list then BNone else b) bound) \<and>
   (snd (setup_data st key) = Some data \<and> \<not> all_null data \<longrightarrow>
      snd (final (check_increment str st bound key increment absolute_value k))
        = map (\<lambda>b. if b \<in> set none_list then BNone else b) bound) \<and>
   (snd (setup_data st key) = Some data \<and> sorted (index data) \<longrightarrow>
      snd (final (check_delta str st bound key window absolute_value k))
        = map (\<lambda>b. if b \<in> set none_list then BNone else b) bound) \<and>
   (snd (setup_data st key) = Some data \<and> (window' = None \<or> sorted (index data)) \<longrightarrow>
      snd (final (check_outlier str st bound key window' absolute_value k))
        = map (\<lambda>b. if b \<in> set none_list then BNone else b) bound) \<and>
   generate_test_results str st data bound k error_prefix
     = generate_test_results str st data (map (\<lambda>b. if b \<in> set none_list then BNone else b) bound)
         k error_prefix \<and>
   (snd (setup_data st key) = None \<longrightarrow>
      snd (final (check_range str st bound key k)) = bound \<and>
      snd (final (check_increment str st bound key increment absolute_value k)) = bound \<and>
      snd (final (check_delta str st bound key window absolute_value k)) = bound \<and>
      snd (final (check_outlier str st bound key window' absolute_value k)) = bound)"
proof (intro conjI impI)
  let ?g = "\<lambda>b. if b \<in> set none_list then BNone else b"
  have gen: "snd (final (generate_test_results str' st' data' bound k' p)) = map ?g bound"
    for str' st' data' k' p
    using generate_test_results_frame[of str' st' data' bound k' p] by (simp add: normalize_bound_map)
  have sd: "snd (setup_data st key) = Some data \<Longrightarrow>
      \<exists>st1. setup_data (st\<lparr>logged := l\<rparr>) key = (st1, Some data)" for l
    using setup_data_logged[where st = st and l = l and key = key] by (cases "setup_data (st\<lparr>logged := l\<rparr>) key") simp
  have sn: "snd (setup_data st key) = None \<Longrightarrow>
      \<exists>st1. setup_data (st\<lparr>logged := l\<rparr>) key = (st1, None)" for l
    using setup_data_logged[where st = st and l = l and key = key] by (cases "setup_data (st\<lparr>logged := l\<rparr>) key") simp
  {
    assume a: "snd (setup_data st key) = Some data"
    from sd[OF a] obtain st1
      where "setup_data (st\<lparr>logged := logged st @ [Info ''Check data range'']\<rparr>) key = (st1, Some data)"
      by blast
    then show "snd (final (check_range str st bound key k)) = map ?g bound"
      by (simp add: check_range_def gen)
  }
  {
    assume a: "snd (setup_data st key) = Some data \<and> \<not> all_null data"
    from sd a obtain st1
      where "setup_data (st\<lparr>logged := logged st @ [Info ''Check increment range'']\<rparr>) key
               = (st1, Some data)"
      by blast
    with a show "snd (final (check_increment str st bound key increment absolute_value k)) = map ?g bound"
      by (simp add: check_increment_def gen)
  }
  {
    assume a: "snd (setup_data st key) = Some data \<and> sorted (index data)"
    from sd a obtain st1
      where s1: "setup_data (st\<lparr>logged := logged st @ [Info ''Check delta (max-min) range'']\<rparr>) key
               = (st1, Some data)"
      by blast
    from delta_tests_frame[where str = str and st = st1 and d = "diff_df (window * 1000000000) absolute_value data"
        and tmin = "tmin_df (window * 1000000000) data" and tmax = "tmax_df (window * 1000000000) data"
        and b = "normalize_bound bound" and k = k
        and p = "if absolute_value then ''|Delta|'' else ''Delta''"]
      check_delta_cases[OF s1, of str bound window absolute_value k] a
    show "snd (final (check_delta str st bound key window absolute_value k)) = map ?g bound"
      by (simp add: normalize_bound_map)
  }
  {
    assume a: "snd (setup_data st key) = Some data \<and> (window' = None \<or> sorted (index data))"
    from sd a obtain st1
      where "setup_data (st\<lparr>logged := logged st @ [Info ''Check for outliers'']\<rparr>) key
               = (st1, Some data)"
      by blast
    with a show "snd (final (check_outlier str st bound key window' absolute_value k)) = map ?g bound"
      by (auto simp: check_outlier_def gen)
  }
  show "generate_test_results str st data bound k error_prefix
     = generate_test_results str st data (map ?g bound) k error_prefix"
    using normalize_bound_idem[of bound]
    by (simp add: generate_test_results_def normalize_bound_map[symmetric])
  {
    assume a: "snd (setup_data st key) = None"
    from sn[OF a] obtain st1
      where "setup_data (st\<lparr>logged := logged st @ [Info ''Check data range'']\<rparr>) key = (st1, None)"
      by blast
    then show "snd (final (check_range str st bound key k)) = bound" by (simp add: check_range_def)
    from sn[OF a] obtain st1
      where "setup_data (st\<lparr>logged := logged st @ [Info ''Check increment range'']\<rparr>) key = (st1, None)"
      by blast
    then show "snd (final (check_increment str st bound key increment absolute_value k)) = bound"
      by (simp add: check_increment_def)
    from sn[OF a] obtain st1
      where "setup_data (st\<lparr>logged := logged st @ [Info ''Check delta (max-min) range'']\<rparr>) key
               = (st1, None)"
      by blast
    then show "snd (final (check_delta str st bound key window absolute_value k)) = bound"
      by (simp add: check_delta_def)
    from sn[OF a] obtain st1
      where "setup_data (st\<lparr>logged := logged st @ [Info ''Check for outliers'']\<rparr>) key = (st1, None)"
      by blast
    then show "snd (final (check_outlier str st bound key window' absolute_value k)) = bound"
      by (simp add: check_outlier_def)
  }
qed

theorem bound_sentinels_overwritten_witness:
  "snd (setup_data
      \<lparr>df = \<lparr>index = [0, 1, 2], columns = [''A''], cells = [[Some 1, Some 2, Some 30]]\<rparr>,
        trans_dict = Map.empty, tfilter = [], test_results = [], logged = []\<rparr> None)
     = Some \<lparr>index = [0, 1, 2], columns = [''A''], cells = [[Some 1, Some 2, Some 30]]\<rparr> \<and>
   snd (final (check_range (\<lambda>x. ''10'')
      \<lparr>df = \<lparr>index = [0, 1, 2], columns = [''A''], cells = [[Some 1, Some 2, Some 30]]\<rparr>,
        trans_dict = Map.empty, tfilter = [], test_results = [], logged = []\<rparr>
      [BStr ''none'', BNum 10, BEmptyDict] None 1))
     = [BNone, BNum 10, BNone] \<and>
   returned (check_range (\<lambda>x. ''10'')
      \<lparr>df = \<lparr>index = [0, 1, 2], columns = [''A''], cells = [[Some 1, Some 2, Some 30]]\<rparr>,
        trans_dict = Map.empty, tfilter = [], test_results = [], logged = []\<rparr>
      [BStr ''none'', BNum 10, BEmptyDict] None 1)"
proof -
  let ?d = "\<lparr>index = [0, 1, 2], columns = [''A''], cells = [[Some 1, Some 2, Some (30::real)]]\<rparr>"
  let ?st = "\<lparr>df = ?d, trans_dict = Map.empty, tfilter = [], test_results = [], logged = []\<rparr>"
  have s: "snd (setup_data ?st None) = Some ?d" by (simp add: setup_data_def empty_frame_def)
  have r: "returned (check_range (\<lambda>x. ''10'') ?st [BStr ''none'', BNum 10, BEmptyDict] None 1)"
    by code_simp
  from bound_sentinels_overwritten[where st = ?st and key = None and data = ?d, THEN conjunct1,
      rule_format, OF s, of "\<lambda>x. ''10''" "[BStr ''none'', BNum 10, BEmptyDict]" 1]
  have "snd (final (check_range (\<lambda>x. ''10'') ?st [BStr ''none'', BNum 10, BEmptyDict] None 1))
     = [BNone, BNum 10, BNone]"
    by (simp add: none_list_def)
  with s r show ?thesis by simp
qed




text \<open>
  Beside the claim: with no key and no present cell at all, building the text of the
  warning concatenates \<^verbatim>\<open>None\<close> to a string and the call raises \<^verbatim>\<open>TypeError\<close>.
\<close>

lemma check_increment_no_key_no_data_raises:
  "check_increment (\<lambda>x. ''10'')
      \<lparr>df = \<lparr>index = [0, 1, 2], columns = [''A''], cells = [[None, None, None]]\<rparr>,
        trans_dict = Map.empty, tfilter = [], test_results = [], logged = []\<rparr>
      [BNone, BNum 10] None 1 True 1
     = Raised TypeError
         (\<lparr>df = \<lparr>index = [0, 1, 2], columns = [''A''], cells = [[None, None, None]]\<rparr>,
            trans_dict = Map.empty, tfilter = [], test_results = [],
            logged = [Info ''Check increment range'']\<rparr>, [BNone, BNum 10])"
  by (simp add: check_increment_def setup_data_def empty_frame_def all_null_def)

end
